theory Spec2Isabelle
  imports Complex_Main "HOL-Library.Char_ord" "HOL-Library.List_Lexorder"
begin

section \<open>The relational schema (track/models.py)\<close>

text \<open>
  Every model class is a record holding the columns of one row; the primary key is an
  explicit column. A table is the list of its rows in insertion order, and the store is
  the record of the six tables. FloatField columns are read as real numbers, instants
  (DateTimeField) as integers on a common time axis and dates as day numbers; the
  bookkeeping columns created_at and updated_at play no part below and are left out.
  Foreign keys hold the primary key of the referenced row.
\<close>

record Location =
  loc_id :: nat
  address :: string
  latitude :: real
  longitude :: real
  city :: string
  state :: string
  country :: string
  postal_code :: string

record Driver =
  drv_id :: nat
  driver_initial :: string
  full_name :: string
  license_number :: string
  phone_number :: string
  email :: string

record Carrier =
  car_id :: nat
  name :: string
  dot_number :: string
  mc_number :: string
  carrier_address :: string
  phone :: string

record Vehicle =
  veh_id :: nat
  truck_number :: string
  veh_make :: string
  model :: string
  year :: "nat option"
  vin :: string
  license_plate :: string
  carrier :: nat

record Trip =
  trip_id :: nat
  date :: nat
  driver :: nat
  co_driver :: "nat option"
  vehicle :: nat
  shipper_and_commodity :: string
  cycle_rule :: string
  total_miles_driving :: real
  total_mileage_today :: real
  total_driving_hours :: real
  total_on_duty_hours :: real
  total_off_duty_hours :: real
  total_sleeper_hours :: real
  remarks :: string
  is_completed :: bool

text \<open>
  A TripEvent instance that was never saved has no primary key (pk is None in the
  source); a stored row has one.
\<close>

record TripEvent =
  ev_id :: "nat option"
  ev_trip :: nat
  ev_location :: nat
  event_type :: string
  timestamp :: int
  duration :: real
  miles_driven :: real
  ev_notes :: string

record db =
  locations :: "Location list"
  drivers :: "Driver list"
  carriers :: "Carrier list"
  vehicles :: "Vehicle list"
  trips :: "Trip list"
  events :: "TripEvent list"

text \<open>The exceptions that the modelled code raises or lets through.\<close>

datatype error =
    AttributeError
  | KeyError
  | ValidationError
  | IntegrityError
  | MultipleObjectsReturned
  | Http404

text \<open>An auto-increment primary key: larger than every key in the table.\<close>

definition new_pk :: "nat list \<Rightarrow> nat" where
  "new_pk ks = Suc (fold max ks 0)"

text \<open>TripEvent.EVENT_TYPE_CHOICES (models.py, lines 183-195): the stored values.\<close>

definition EVENT_TYPE_CHOICES :: "string list" where
  "EVENT_TYPE_CHOICES =
     [''driving'', ''on_duty'', ''off_duty'', ''sleeper'', ''rest_break'', ''fuel_stop'',
      ''meal_break'', ''inspection'', ''loading'', ''unloading'', ''other'']"

section \<open>The aggregation of a trip's events (Trip.calculate_totals, TripEvent.save)\<close>

text \<open>
  The related manager self.events of a trip: the event rows whose foreign key is the trip.
\<close>

definition trip_events :: "db \<Rightarrow> nat \<Rightarrow> TripEvent list" where
  "trip_events s k = filter (\<lambda>e. ev_trip e = k) (events s)"

text \<open>
  Django's Sum aggregate is SQL SUM: NULL (None) over zero rows, the sum otherwise.
  The source then writes \<open>value or 0.0\<close>, which replaces None, and a zero, by 0.0.
\<close>

definition Sum_agg :: "real list \<Rightarrow> real option" where
  "Sum_agg xs = (if xs = [] then None else Some (sum_list xs))"

definition or_zero :: "real option \<Rightarrow> real" where
  "or_zero r = (case r of None \<Rightarrow> 0 | Some x \<Rightarrow> (if x = 0 then 0 else x))"

text \<open>Sum("duration", filter=Q(event_type=ty)) over a list of events.\<close>

definition sum_duration_where :: "string \<Rightarrow> TripEvent list \<Rightarrow> real option" where
  "sum_duration_where ty es = Sum_agg (map duration (filter (\<lambda>e. event_type e = ty) es))"

text \<open>
  Trip.calculate_totals (models.py, lines 146-167) for the trip with primary key k: the
  four hour sums and the mileage sum are computed from the stored events, written to the
  five attributes, and the trip is saved. The instance on which the source calls the
  method was loaded from, or just written to, its row in every caller, so the model
  updates the row. total_mileage_today is not assigned.
\<close>

definition set_totals :: "TripEvent list \<Rightarrow> Trip \<Rightarrow> Trip" where
  "set_totals es t =
     t\<lparr> total_driving_hours := or_zero (sum_duration_where ''driving'' es),
        total_on_duty_hours := or_zero (sum_duration_where ''on_duty'' es),
        total_off_duty_hours := or_zero (sum_duration_where ''off_duty'' es),
        total_sleeper_hours := or_zero (sum_duration_where ''sleeper'' es),
        total_miles_driving :=
          or_zero (Sum_agg (map miles_driven (filter (\<lambda>e. event_type e = ''driving'') es))) \<rparr>"

definition calculate_totals :: "db \<Rightarrow> nat \<Rightarrow> db" where
  "calculate_totals s k =
     s\<lparr> trips := map (\<lambda>t. if trip_id t = k then set_totals (trip_events s k) t else t) (trips s) \<rparr>"

text \<open>
  Model.save of a TripEvent (the call super().save() of line 228). The row needs an
  existing trip and an existing location (both foreign keys are NOT NULL with a
  constraint), otherwise the database raises IntegrityError. An instance without a
  primary key is inserted under a new key; one whose key is stored replaces that row; one
  whose key is not stored is inserted under its key.
\<close>

definition stored_event_ids :: "db \<Rightarrow> nat list" where
  "stored_event_ids s = concat (map (\<lambda>x. case ev_id x of None \<Rightarrow> [] | Some i \<Rightarrow> [i]) (events s))"

definition Model_save_event :: "db \<Rightarrow> TripEvent \<Rightarrow> db \<times> (error + TripEvent)" where
  "Model_save_event s e =
     (if ev_trip e \<in> set (map trip_id (trips s)) \<and> ev_location e \<in> set (map loc_id (locations s))
      then (case ev_id e of
              None \<Rightarrow>
                (let e' = e\<lparr> ev_id := Some (new_pk (stored_event_ids s)) \<rparr>
                 in (s\<lparr> events := events s @ [e'] \<rparr>, Inr e'))
            | Some i \<Rightarrow>
                (if Some i \<in> set (map ev_id (events s))
                 then (s\<lparr> events := map (\<lambda>x. if ev_id x = Some i then e else x) (events s) \<rparr>, Inr e)
                 else (s\<lparr> events := events s @ [e] \<rparr>, Inr e)))
      else (s, Inl IntegrityError))"

text \<open>
  TripEvent.save (models.py, lines 227-229): the row is written, then the totals of the
  event's trip are recomputed and stored. A failure of the write leaves the store as it
  was and skips the recomputation.
\<close>

definition TripEvent_save :: "db \<Rightarrow> TripEvent \<Rightarrow> db \<times> (error + TripEvent)" where
  "TripEvent_save s e =
     (case Model_save_event s e of
        (s', Inl err) \<Rightarrow> (s', Inl err)
      | (s', Inr e') \<Rightarrow> (calculate_totals s' (ev_trip e'), Inr e'))"

text \<open>
  Trip.destination_location (models.py, lines 136-144): the events of the trip whose type
  is one of the two listed strings, newest first; the location reference of the first of
  them, or None. The order among equal timestamps is left to the database; the model
  keeps table order there.
\<close>

definition first :: "'a list \<Rightarrow> 'a option" where
  "first xs = (case xs of [] \<Rightarrow> None | x # _ \<Rightarrow> Some x)"

definition destination_location :: "db \<Rightarrow> nat \<Rightarrow> nat option" where
  "destination_location s k =
     (let last_driving_event =
            first (sort_key (\<lambda>e. - timestamp e)
                     (filter (\<lambda>e. event_type e \<in> set [''driving_start'', ''driving_end''])
                        (trip_events s k)))
      in case last_driving_event of None \<Rightarrow> None | Some e \<Rightarrow> Some (ev_location e))"

section \<open>Searching locations (LocationViewSet.search)\<close>

text \<open>
  The lookup address__icontains compares without regard to case. The model folds the
  letters A to Z; the folding of other alphabets is the database's and is not modelled.
\<close>

definition lower_char :: "char \<Rightarrow> char" where
  "lower_char c =
     (case map_of (zip ''ABCDEFGHIJKLMNOPQRSTUVWXYZ'' ''abcdefghijklmnopqrstuvwxyz'') c of
        None \<Rightarrow> c
      | Some d \<Rightarrow> d)"

definition lower :: "string \<Rightarrow> string" where
  "lower cs = map lower_char cs"

fun contains :: "string \<Rightarrow> string \<Rightarrow> bool" where
  "contains [] q = (q = [])"
| "contains (c # cs) q = (take (length q) (c # cs) = q \<or> contains cs q)"

definition icontains :: "string \<Rightarrow> string \<Rightarrow> bool" where
  "icontains a q = contains (lower a) (lower q)"

text \<open>Location.objects.all(): Location.Meta orders the rows by address.\<close>

definition Location_objects_all :: "db \<Rightarrow> Location list" where
  "Location_objects_all s = sort_key address (locations s)"

text \<open>
  LocationViewSet.search (views.py, lines 38-47). The argument is the query parameter q,
  None when the request has none; the result is the list of rows that the response
  serialises.
\<close>

definition search :: "db \<Rightarrow> string option \<Rightarrow> Location list" where
  "search s q =
     (let query = (case q of None \<Rightarrow> [] | Some x \<Rightarrow> x)
      in if query \<noteq> []
         then take 10 (filter (\<lambda>l. icontains (address l) query) (Location_objects_all s))
         else [])"

section \<open>The serializers (track/serializers.py)\<close>

text \<open>
  The data handed to a serializer is a record with one optional entry per declared
  field, holding the value after the field's type conversion. What is_valid() checks is
  read off the model declarations from which a ModelSerializer builds its fields: a
  column without default and without blank=True is required, max_length bounds the
  length, the validators of the column apply, a choices column admits its choices, and
  a unique column carries a uniqueness check against the stored rows.
\<close>

record location_data =
  ld_address :: "string option"
  ld_latitude :: "real option"
  ld_longitude :: "real option"
  ld_city :: "string option"
  ld_state :: "string option"
  ld_country :: "string option"
  ld_postal_code :: "string option"

record event_data =
  ed_event_type :: "string option"
  ed_timestamp :: "int option"
  ed_duration :: "real option"
  ed_miles_driven :: "real option"
  ed_notes :: "string option"
  ed_location_data :: "location_data option"

definition required :: "('a \<Rightarrow> bool) \<Rightarrow> 'a option \<Rightarrow> bool" where
  "required P x = (case x of None \<Rightarrow> False | Some v \<Rightarrow> P v)"

definition optional :: "('a \<Rightarrow> bool) \<Rightarrow> 'a option \<Rightarrow> bool" where
  "optional P x = (case x of None \<Rightarrow> True | Some v \<Rightarrow> P v)"

definition get_default :: "'a \<Rightarrow> 'a option \<Rightarrow> 'a" where
  "get_default d x = (case x of None \<Rightarrow> d | Some v \<Rightarrow> v)"

text \<open>
  LocationSerializer(data=...).is_valid(), from the Location columns (models.py, lines
  9-22): address is required, at most 255 characters and unique; latitude and longitude
  are required and range-checked; the other columns are optional.
\<close>

definition LocationSerializer_is_valid :: "db \<Rightarrow> location_data \<Rightarrow> bool" where
  "LocationSerializer_is_valid s d \<longleftrightarrow>
     required (\<lambda>a. a \<noteq> [] \<and> length a \<le> 255 \<and> a \<notin> set (map address (locations s))) (ld_address d) \<and>
     required (\<lambda>x. - 90 \<le> x \<and> x \<le> 90) (ld_latitude d) \<and>
     required (\<lambda>x. - 180 \<le> x \<and> x \<le> 180) (ld_longitude d) \<and>
     optional (\<lambda>c. length c \<le> 100) (ld_city d) \<and>
     optional (\<lambda>c. length c \<le> 50) (ld_state d) \<and>
     optional (\<lambda>c. c \<noteq> [] \<and> length c \<le> 50) (ld_country d) \<and>
     optional (\<lambda>c. length c \<le> 20) (ld_postal_code d)"

text \<open>Location.objects.create: the insert fails on a stored address (unique=True).\<close>

definition insert_Location :: "db \<Rightarrow> Location \<Rightarrow> db \<times> (error + Location)" where
  "insert_Location s l =
     (if address l \<in> set (map address (locations s)) then (s, Inl IntegrityError)
      else (let l' = l\<lparr> loc_id := new_pk (map loc_id (locations s)) \<rparr>
            in (s\<lparr> locations := locations s @ [l'] \<rparr>, Inr l')))"

text \<open>
  LocationSerializer.create (serializers.py, lines 23-29): get_or_create on the address.
  get returns the only matching row and raises on several; with no match the row is
  created from the validated data, the missing columns taking their defaults (a missing
  NOT NULL column without default fails the insert).
\<close>

definition LocationSerializer_create :: "db \<Rightarrow> location_data \<Rightarrow> db \<times> (error + Location)" where
  "LocationSerializer_create s d =
     (case ld_address d of
        None \<Rightarrow> (s, Inl IntegrityError)
      | Some a \<Rightarrow>
          (case filter (\<lambda>l. address l = a) (locations s) of
             [] \<Rightarrow>
               (case ld_latitude d of
                  None \<Rightarrow> (s, Inl IntegrityError)
                | Some la \<Rightarrow>
                    (case ld_longitude d of
                       None \<Rightarrow> (s, Inl IntegrityError)
                     | Some lo \<Rightarrow>
                         insert_Location s
                           \<lparr> loc_id = 0, address = a, latitude = la, longitude = lo,
                             city = get_default [] (ld_city d),
                             state = get_default [] (ld_state d),
                             country = get_default ''USA'' (ld_country d),
                             postal_code = get_default [] (ld_postal_code d) \<rparr>))
           | [l] \<Rightarrow> (s, Inr l)
           | _ \<Rightarrow> (s, Inl MultipleObjectsReturned)))"

text \<open>
  TripEventCreateSerializer(data=...).is_valid(), from the TripEvent columns (models.py,
  lines 202-214) and the declared DictField: event_type must be a choice, timestamp and
  location_data are required, duration and miles_driven must not be negative.
\<close>

definition TripEventCreateSerializer_is_valid :: "event_data \<Rightarrow> bool" where
  "TripEventCreateSerializer_is_valid d \<longleftrightarrow>
     required (\<lambda>ty. ty \<in> set EVENT_TYPE_CHOICES) (ed_event_type d) \<and>
     required (\<lambda>_. True) (ed_timestamp d) \<and>
     optional (\<lambda>x. 0 \<le> x) (ed_duration d) \<and>
     optional (\<lambda>x. 0 \<le> x) (ed_miles_driven d) \<and>
     required (\<lambda>_. True) (ed_location_data d)"

text \<open>
  TripEventCreateSerializer.create (serializers.py, lines 123-133), called by
  save(trip=...) with the validated data and the trip (None when save is called without
  one). Popping a missing location_data raises KeyError; an invalid location raises
  ValidationError; the event is then created, which saves it through TripEvent.save. No
  transaction is opened here, so a location created before a failing insert stays.
\<close>

definition TripEventCreateSerializer_create ::
  "db \<Rightarrow> nat option \<Rightarrow> event_data \<Rightarrow> db \<times> (error + TripEvent)" where
  "TripEventCreateSerializer_create s trip d =
     (case ed_location_data d of
        None \<Rightarrow> (s, Inl KeyError)
      | Some location_data \<Rightarrow>
          (if LocationSerializer_is_valid s location_data
           then (case LocationSerializer_create s location_data of
                   (s1, Inl err) \<Rightarrow> (s1, Inl err)
                 | (s1, Inr l) \<Rightarrow>
                     (case trip of
                        None \<Rightarrow> (s1, Inl IntegrityError)
                      | Some k \<Rightarrow>
                          (case ed_timestamp d of
                             None \<Rightarrow> (s1, Inl IntegrityError)
                           | Some ts \<Rightarrow>
                               TripEvent_save s1
                                 \<lparr> ev_id = None, ev_trip = k, ev_location = loc_id l,
                                   event_type = get_default [] (ed_event_type d),
                                   timestamp = ts,
                                   duration = get_default 0 (ed_duration d),
                                   miles_driven = get_default 0 (ed_miles_driven d),
                                   ev_notes = get_default [] (ed_notes d) \<rparr>)))
           else (s, Inl ValidationError)))"

section \<open>Trip intake (TripCreateSerializer.create)\<close>

text \<open>
  The validated data of a TripCreateSerializer, the argument of create: one optional
  entry per name of Meta.fields (serializers.py, lines 245-262). Of the six totals of a
  Trip only total_mileage_today is declared there. References to drivers and vehicles are
  primary keys. The function create is written for any such dictionary (it asks whether
  the keys are there); which dictionaries a request can produce is the matter of
  is_valid(), modelled with the endpoint below.
\<close>

record trip_validated_data =
  vd_date :: "nat option"
  vd_driver :: "nat option"
  vd_co_driver :: "nat option"
  vd_vehicle :: "nat option"
  vd_shipper_and_commodity :: "string option"
  vd_cycle_rule :: "string option"
  vd_total_mileage_today :: "real option"
  vd_remarks :: "string option"
  vd_initial_events :: "event_data list option"
  vd_current_location :: "location_data option"
  vd_pickup_location :: "location_data option"
  vd_dropoff_location :: "location_data option"
  vd_driver_initial :: "string option"
  vd_carrier_name :: "string option"
  vd_truck_number :: "string option"

text \<open>
  serializers.py, line 4, imports timezone from the module time: the offset of the local
  zone, an integer. An integer has no attribute now, so each call timezone.now() (lines
  274, 284 and 294) raises AttributeError, whatever the offset.
\<close>

definition timezone_now :: "error + int" where
  "timezone_now = Inl AttributeError"

text \<open>
  One of the three blocks of lines 269-297: when the key is present, the dictionary of the
  legacy event is built (which evaluates timezone.now()) and appended.
\<close>

definition legacy_append ::
  "location_data option \<Rightarrow> string \<Rightarrow> string \<Rightarrow> event_data list \<Rightarrow> error + event_data list" where
  "legacy_append field ty note acc =
     (case field of
        None \<Rightarrow> Inr acc
      | Some location_data \<Rightarrow>
          (case timezone_now of
             Inl err \<Rightarrow> Inl err
           | Inr now \<Rightarrow>
               Inr (acc @ [\<lparr> ed_event_type = Some ty, ed_timestamp = Some now,
                              ed_duration = None, ed_miles_driven = None,
                              ed_notes = Some note,
                              ed_location_data = Some location_data \<rparr>])))"

definition legacy_locations :: "trip_validated_data \<Rightarrow> error + event_data list" where
  "legacy_locations vd =
     (case legacy_append (vd_current_location vd) ''other'' ''Current location'' [] of
        Inl err \<Rightarrow> Inl err
      | Inr l1 \<Rightarrow>
          (case legacy_append (vd_pickup_location vd) ''loading'' ''Pickup location'' l1 of
             Inl err \<Rightarrow> Inl err
           | Inr l2 \<Rightarrow>
               legacy_append (vd_dropoff_location vd) ''unloading'' ''Dropoff location'' l2))"

text \<open>Inserts with the unique columns of each table (models.py).\<close>

definition insert_Driver :: "db \<Rightarrow> Driver \<Rightarrow> db \<times> (error + Driver)" where
  "insert_Driver s d =
     (if driver_initial d \<in> set (map driver_initial (drivers s))
         \<or> license_number d \<in> set (map license_number (drivers s))
      then (s, Inl IntegrityError)
      else (let d' = d\<lparr> drv_id := new_pk (map drv_id (drivers s)) \<rparr>
            in (s\<lparr> drivers := drivers s @ [d'] \<rparr>, Inr d')))"

definition insert_Carrier :: "db \<Rightarrow> Carrier \<Rightarrow> db \<times> (error + Carrier)" where
  "insert_Carrier s c =
     (if name c \<in> set (map name (carriers s)) \<or> dot_number c \<in> set (map dot_number (carriers s))
      then (s, Inl IntegrityError)
      else (let c' = c\<lparr> car_id := new_pk (map car_id (carriers s)) \<rparr>
            in (s\<lparr> carriers := carriers s @ [c'] \<rparr>, Inr c')))"

definition insert_Vehicle :: "db \<Rightarrow> Vehicle \<Rightarrow> db \<times> (error + Vehicle)" where
  "insert_Vehicle s v =
     (if carrier v \<in> set (map car_id (carriers s))
      then (if truck_number v \<in> set (map truck_number (vehicles s))
               \<or> vin v \<in> set (map vin (vehicles s))
            then (s, Inl IntegrityError)
            else (let v' = v\<lparr> veh_id := new_pk (map veh_id (vehicles s)) \<rparr>
                  in (s\<lparr> vehicles := vehicles s @ [v'] \<rparr>, Inr v')))
      else (s, Inl IntegrityError))"

text \<open>The three get_or_create calls of lines 304-310, 315-318 and 326-328.\<close>

definition Driver_get_or_create :: "db \<Rightarrow> string \<Rightarrow> db \<times> (error + Driver)" where
  "Driver_get_or_create s di =
     (case filter (\<lambda>d. driver_initial d = di) (drivers s) of
        [] \<Rightarrow>
          insert_Driver s
            \<lparr> drv_id = 0, driver_initial = di, full_name = di,
              license_number = ''LIC_'' @ di, phone_number = [], email = [] \<rparr>
      | [d] \<Rightarrow> (s, Inr d)
      | _ \<Rightarrow> (s, Inl MultipleObjectsReturned))"

definition Carrier_get_or_create :: "db \<Rightarrow> string \<Rightarrow> db \<times> (error + Carrier)" where
  "Carrier_get_or_create s cn =
     (case filter (\<lambda>c. name c = cn) (carriers s) of
        [] \<Rightarrow>
          insert_Carrier s
            \<lparr> car_id = 0, name = cn, dot_number = ''DOT_'' @ take 10 cn,
              mc_number = [], carrier_address = [], phone = [] \<rparr>
      | [c] \<Rightarrow> (s, Inr c)
      | _ \<Rightarrow> (s, Inl MultipleObjectsReturned))"

definition Vehicle_get_or_create :: "db \<Rightarrow> string \<Rightarrow> nat \<Rightarrow> db \<times> (error + Vehicle)" where
  "Vehicle_get_or_create s tn c =
     (case filter (\<lambda>v. truck_number v = tn) (vehicles s) of
        [] \<Rightarrow>
          insert_Vehicle s
            \<lparr> veh_id = 0, truck_number = tn, veh_make = [], model = [], year = None,
              vin = [], license_plate = [], carrier = c \<rparr>
      | [v] \<Rightarrow> (s, Inr v)
      | _ \<Rightarrow> (s, Inl MultipleObjectsReturned))"

text \<open>Carrier.objects.first(): the row with the least primary key, or None.\<close>

definition Carrier_objects_first :: "db \<Rightarrow> Carrier option" where
  "Carrier_objects_first s = first (sort_key car_id (carriers s))"

text \<open>The truth value of an optional string: None and the empty string are false.\<close>

definition truthy :: "string option \<Rightarrow> bool" where
  "truthy x = (case x of None \<Rightarrow> False | Some v \<Rightarrow> v \<noteq> [])"

text \<open>Lines 303-311: the driver shorthand, used only when no driver is given.\<close>

definition resolve_driver ::
  "db \<Rightarrow> trip_validated_data \<Rightarrow> db \<times> (error + trip_validated_data)" where
  "resolve_driver s vd =
     (if truthy (vd_driver_initial vd) \<and> vd_driver vd = None
      then (case Driver_get_or_create s (get_default [] (vd_driver_initial vd)) of
              (s1, Inl err) \<Rightarrow> (s1, Inl err)
            | (s1, Inr d) \<Rightarrow> (s1, Inr (vd\<lparr> vd_driver := Some (drv_id d) \<rparr>)))
      else (s, Inr vd))"

text \<open>Lines 314-324: the carrier under which a new vehicle is filed.\<close>

definition resolve_carrier :: "db \<Rightarrow> string option \<Rightarrow> db \<times> (error + Carrier)" where
  "resolve_carrier s carrier_name =
     (if truthy carrier_name
      then Carrier_get_or_create s (get_default [] carrier_name)
      else (case Carrier_objects_first s of
              Some c \<Rightarrow> (s, Inr c)
            | None \<Rightarrow>
                insert_Carrier s
                  \<lparr> car_id = 0, name = ''Default Carrier'', dot_number = ''DOT_DEFAULT'',
                    mc_number = [], carrier_address = [], phone = [] \<rparr>))"

text \<open>Lines 313-329: the vehicle shorthand, used only when no vehicle is given.\<close>

definition resolve_vehicle ::
  "db \<Rightarrow> trip_validated_data \<Rightarrow> db \<times> (error + trip_validated_data)" where
  "resolve_vehicle s vd =
     (if truthy (vd_truck_number vd) \<and> vd_vehicle vd = None
      then (case resolve_carrier s (vd_carrier_name vd) of
              (s1, Inl err) \<Rightarrow> (s1, Inl err)
            | (s1, Inr c) \<Rightarrow>
                (case Vehicle_get_or_create s1 (get_default [] (vd_truck_number vd)) (car_id c) of
                   (s2, Inl err) \<Rightarrow> (s2, Inl err)
                 | (s2, Inr v) \<Rightarrow> (s2, Inr (vd\<lparr> vd_vehicle := Some (veh_id v) \<rparr>))))
      else (s, Inr vd))"

text \<open>
  Trip.objects.create(**validated_data) (line 331): date, driver and vehicle are NOT NULL,
  the three references must exist, the other columns take their defaults; the five
  aggregated totals are not among the keys and start at 0.0.
\<close>

definition Trip_objects_create :: "db \<Rightarrow> trip_validated_data \<Rightarrow> db \<times> (error + Trip)" where
  "Trip_objects_create s vd =
     (case vd_date vd of
        None \<Rightarrow> (s, Inl IntegrityError)
      | Some dt \<Rightarrow>
          (case vd_driver vd of
             None \<Rightarrow> (s, Inl IntegrityError)
           | Some d \<Rightarrow>
               (case vd_vehicle vd of
                  None \<Rightarrow> (s, Inl IntegrityError)
                | Some v \<Rightarrow>
                    (if d \<in> set (map drv_id (drivers s)) \<and> v \<in> set (map veh_id (vehicles s))
                        \<and> optional (\<lambda>c. c \<in> set (map drv_id (drivers s))) (vd_co_driver vd)
                     then (let t = \<lparr> trip_id = new_pk (map trip_id (trips s)), date = dt,
                                      driver = d, co_driver = vd_co_driver vd, vehicle = v,
                                      shipper_and_commodity = get_default [] (vd_shipper_and_commodity vd),
                                      cycle_rule = get_default ''70hr/8day'' (vd_cycle_rule vd),
                                      total_miles_driving = 0,
                                      total_mileage_today = get_default 0 (vd_total_mileage_today vd),
                                      total_driving_hours = 0, total_on_duty_hours = 0,
                                      total_off_duty_hours = 0, total_sleeper_hours = 0,
                                      remarks = get_default [] (vd_remarks vd),
                                      is_completed = False \<rparr>
                           in (s\<lparr> trips := trips s @ [t] \<rparr>, Inr t))
                     else (s, Inl IntegrityError)))))"

text \<open>
  The loop of lines 334-337 for the trip with primary key k: an event whose data is valid
  is saved, one whose data is not valid is passed over, and an exception of a save ends
  the loop.
\<close>

fun create_events :: "db \<Rightarrow> nat \<Rightarrow> event_data list \<Rightarrow> db \<times> (error + unit)" where
  "create_events s k [] = (s, Inr ())"
| "create_events s k (event_data # rest) =
     (if TripEventCreateSerializer_is_valid event_data
      then (case TripEventCreateSerializer_create s (Some k) event_data of
              (s1, Inl err) \<Rightarrow> (s1, Inl err)
            | (s1, Inr _) \<Rightarrow> create_events s1 k rest)
      else create_events s k rest)"

text \<open>
  The body of create, lines 266-339. The trip object that is returned is the one on which
  every event save has recomputed and stored the totals, so it is read back from its row.
\<close>

definition create_body :: "db \<Rightarrow> trip_validated_data \<Rightarrow> db \<times> (error + Trip)" where
  "create_body s vd =
     (let initial_events_data = get_default [] (vd_initial_events vd)
      in case legacy_locations vd of
           Inl err \<Rightarrow> (s, Inl err)
         | Inr legacy \<Rightarrow>
             (case resolve_driver s vd of
                (s1, Inl err) \<Rightarrow> (s1, Inl err)
              | (s1, Inr vd1) \<Rightarrow>
                  (case resolve_vehicle s1 vd1 of
                     (s2, Inl err) \<Rightarrow> (s2, Inl err)
                   | (s2, Inr vd2) \<Rightarrow>
                       (case Trip_objects_create s2 vd2 of
                          (s3, Inl err) \<Rightarrow> (s3, Inl err)
                        | (s3, Inr t) \<Rightarrow>
                            (case create_events s3 (trip_id t) (initial_events_data @ legacy) of
                               (s4, Inl err) \<Rightarrow> (s4, Inl err)
                             | (s4, Inr _) \<Rightarrow>
                                 (s4, Inr (get_default t
                                             (find (\<lambda>x. trip_id x = trip_id t) (trips s4)))))))))"

text \<open>
  The decorator transaction.atomic (line 264): an exception that leaves create undoes
  every write made inside it.
\<close>

definition TripCreateSerializer_create ::
  "db \<Rightarrow> trip_validated_data \<Rightarrow> db \<times> (error + Trip)" where
  "TripCreateSerializer_create s vd =
     (case create_body s vd of
        (s', Inl err) \<Rightarrow> (s, Inl err)
      | (s', Inr t) \<Rightarrow> (s', Inr t))"

section \<open>Trip update (TripSerializer)\<close>

text \<open>
  The validated data of a TripSerializer, the argument of update: the names of
  Meta.fields (lines 155-185) that are model columns and are neither listed in
  read_only_fields (lines 186-193) nor declared read-only. total_mileage_today is among
  them; the five aggregated totals are not (how a request that carries them is cut down
  to this record is modelled with the endpoint below). TripSerializer defines no update,
  so the one of ModelSerializer runs: it assigns every validated item to the instance and
  saves the instance, which replaces its row.
\<close>

record trip_update_data =
  ud_date :: "nat option"
  ud_driver :: "nat option"
  ud_co_driver :: "nat option option"
  ud_vehicle :: "nat option"
  ud_shipper_and_commodity :: "string option"
  ud_cycle_rule :: "string option"
  ud_total_mileage_today :: "real option"
  ud_remarks :: "string option"
  ud_is_completed :: "bool option"

definition set_attributes :: "Trip \<Rightarrow> trip_update_data \<Rightarrow> Trip" where
  "set_attributes t u =
     t\<lparr> date := get_default (date t) (ud_date u),
        driver := get_default (driver t) (ud_driver u),
        co_driver := get_default (co_driver t) (ud_co_driver u),
        vehicle := get_default (vehicle t) (ud_vehicle u),
        shipper_and_commodity := get_default (shipper_and_commodity t) (ud_shipper_and_commodity u),
        cycle_rule := get_default (cycle_rule t) (ud_cycle_rule u),
        total_mileage_today := get_default (total_mileage_today t) (ud_total_mileage_today u),
        remarks := get_default (remarks t) (ud_remarks u),
        is_completed := get_default (is_completed t) (ud_is_completed u) \<rparr>"

definition TripSerializer_update :: "db \<Rightarrow> Trip \<Rightarrow> trip_update_data \<Rightarrow> db \<times> (error + Trip)" where
  "TripSerializer_update s instance u =
     (let t = set_attributes instance u
      in if driver t \<in> set (map drv_id (drivers s)) \<and> vehicle t \<in> set (map veh_id (vehicles s))
            \<and> optional (\<lambda>c. c \<in> set (map drv_id (drivers s))) (co_driver t)
         then (if trip_id t \<in> set (map trip_id (trips s))
               then (s\<lparr> trips := map (\<lambda>x. if trip_id x = trip_id t then t else x) (trips s) \<rparr>, Inr t)
               else (s\<lparr> trips := trips s @ [t] \<rparr>, Inr t))
         else (s, Inl IntegrityError))"

section \<open>The trip endpoints (TripViewSet, track/views.py)\<close>

text \<open>
  The data of a request for a trip as the client sends it, after type conversion: one
  optional entry per key that a trip serializer or a Trip column knows. A client may
  send any of them, the six totals and is_completed included; which keys a serializer
  takes up is decided by its Meta. co_driver may be absent, null or a primary key.
\<close>

record trip_request =
  rq_date :: "nat option"
  rq_driver :: "nat option"
  rq_co_driver :: "nat option option"
  rq_vehicle :: "nat option"
  rq_shipper_and_commodity :: "string option"
  rq_cycle_rule :: "string option"
  rq_total_miles_driving :: "real option"
  rq_total_mileage_today :: "real option"
  rq_total_driving_hours :: "real option"
  rq_total_on_duty_hours :: "real option"
  rq_total_off_duty_hours :: "real option"
  rq_total_sleeper_hours :: "real option"
  rq_remarks :: "string option"
  rq_is_completed :: "bool option"
  rq_initial_events :: "event_data list option"
  rq_current_location :: "location_data option"
  rq_pickup_location :: "location_data option"
  rq_dropoff_location :: "location_data option"
  rq_driver_initial :: "string option"
  rq_carrier_name :: "string option"
  rq_truck_number :: "string option"

text \<open>Trip.CYCLE_RULE_CHOICES (models.py, line 91): the stored values.\<close>

definition CYCLE_RULE_CHOICES :: "string list" where
  "CYCLE_RULE_CHOICES = [''70hr/8day'', ''60hr/7day'']"

text \<open>
  TripCreateSerializer(data=...).is_valid(), from the Trip columns (models.py, lines
  93-120) and the fields declared at serializers.py, lines 233-241. date, driver and
  vehicle are columns without default, null or blank, so the three keys are required and
  the two references must name stored rows; co_driver is optional and may be null;
  initial_events is declared without required=False, so it is required, and each of its
  items is validated by the nested TripEventCreateSerializer; the three shorthand
  fields are optional and must not be blank; the three legacy dictionaries are optional.
\<close>

definition TripCreateSerializer_is_valid :: "db \<Rightarrow> trip_request \<Rightarrow> bool" where
  "TripCreateSerializer_is_valid s r \<longleftrightarrow>
     required (\<lambda>_. True) (rq_date r) \<and>
     required (\<lambda>k. k \<in> set (map drv_id (drivers s))) (rq_driver r) \<and>
     optional (optional (\<lambda>k. k \<in> set (map drv_id (drivers s)))) (rq_co_driver r) \<and>
     required (\<lambda>k. k \<in> set (map veh_id (vehicles s))) (rq_vehicle r) \<and>
     optional (\<lambda>x. length x \<le> 255) (rq_shipper_and_commodity r) \<and>
     optional (\<lambda>x. x \<in> set CYCLE_RULE_CHOICES) (rq_cycle_rule r) \<and>
     required (list_all TripEventCreateSerializer_is_valid) (rq_initial_events r) \<and>
     optional (\<lambda>x. x \<noteq> []) (rq_driver_initial r) \<and>
     optional (\<lambda>x. x \<noteq> []) (rq_carrier_name r) \<and>
     optional (\<lambda>x. x \<noteq> []) (rq_truck_number r)"

text \<open>
  The validated data of a valid request: the keys of Meta.fields (lines 245-262) with
  their values. The five aggregated totals and is_completed are not among these names and
  are dropped.
\<close>

definition TripCreateSerializer_validated_data :: "trip_request \<Rightarrow> trip_validated_data" where
  "TripCreateSerializer_validated_data r =
     \<lparr> vd_date = rq_date r, vd_driver = rq_driver r,
       vd_co_driver = (case rq_co_driver r of None \<Rightarrow> None | Some c \<Rightarrow> c),
       vd_vehicle = rq_vehicle r,
       vd_shipper_and_commodity = rq_shipper_and_commodity r,
       vd_cycle_rule = rq_cycle_rule r,
       vd_total_mileage_today = rq_total_mileage_today r,
       vd_remarks = rq_remarks r,
       vd_initial_events = rq_initial_events r,
       vd_current_location = rq_current_location r,
       vd_pickup_location = rq_pickup_location r,
       vd_dropoff_location = rq_dropoff_location r,
       vd_driver_initial = rq_driver_initial r,
       vd_carrier_name = rq_carrier_name r,
       vd_truck_number = rq_truck_number r \<rparr>"

text \<open>
  POST on the trips endpoint: TripViewSet has CreateModelMixin and get_serializer_class
  gives TripCreateSerializer for the action create (views.py, lines 121-138). The mixin
  calls is_valid(raise_exception=True), which answers an invalid request with
  ValidationError (HTTP 400) before anything is written, and then save(), which calls
  create with the validated data.
\<close>

definition TripViewSet_create :: "db \<Rightarrow> trip_request \<Rightarrow> db \<times> (error + Trip)" where
  "TripViewSet_create s r =
     (if TripCreateSerializer_is_valid s r
      then TripCreateSerializer_create s (TripCreateSerializer_validated_data r)
      else (s, Inl ValidationError))"

text \<open>
  TripSerializer(instance, data=..., partial=...).is_valid(): the same columns; with
  partial (PATCH) no key is required, without it (PUT) date, driver and vehicle are.
\<close>

definition field_ok :: "bool \<Rightarrow> ('a \<Rightarrow> bool) \<Rightarrow> 'a option \<Rightarrow> bool" where
  "field_ok partial P x = (if partial then optional P x else required P x)"

definition TripSerializer_is_valid :: "db \<Rightarrow> bool \<Rightarrow> trip_request \<Rightarrow> bool" where
  "TripSerializer_is_valid s partial r \<longleftrightarrow>
     field_ok partial (\<lambda>_. True) (rq_date r) \<and>
     field_ok partial (\<lambda>k. k \<in> set (map drv_id (drivers s))) (rq_driver r) \<and>
     optional (optional (\<lambda>k. k \<in> set (map drv_id (drivers s)))) (rq_co_driver r) \<and>
     field_ok partial (\<lambda>k. k \<in> set (map veh_id (vehicles s))) (rq_vehicle r) \<and>
     optional (\<lambda>x. length x \<le> 255) (rq_shipper_and_commodity r) \<and>
     optional (\<lambda>x. x \<in> set CYCLE_RULE_CHOICES) (rq_cycle_rule r)"

text \<open>
  The validated data of a valid update request: the writable names of TripSerializer.
  The five totals listed in read_only_fields (lines 186-193) are dropped;
  total_mileage_today is not listed there and is kept.
\<close>

definition TripSerializer_validated_data :: "trip_request \<Rightarrow> trip_update_data" where
  "TripSerializer_validated_data r =
     \<lparr> ud_date = rq_date r, ud_driver = rq_driver r, ud_co_driver = rq_co_driver r,
       ud_vehicle = rq_vehicle r,
       ud_shipper_and_commodity = rq_shipper_and_commodity r,
       ud_cycle_rule = rq_cycle_rule r,
       ud_total_mileage_today = rq_total_mileage_today r,
       ud_remarks = rq_remarks r,
       ud_is_completed = rq_is_completed r \<rparr>"

text \<open>
  PUT and PATCH on a trip: TripViewSet has UpdateModelMixin and uses TripSerializer for
  every action but create. get_object answers an unknown key with Http404; an invalid
  request is answered with ValidationError; otherwise update runs on the stored trip.
\<close>

definition TripViewSet_update :: "db \<Rightarrow> nat \<Rightarrow> bool \<Rightarrow> trip_request \<Rightarrow> db \<times> (error + Trip)" where
  "TripViewSet_update s pk partial r =
     (case find (\<lambda>t. trip_id t = pk) (trips s) of
        None \<Rightarrow> (s, Inl Http404)
      | Some instance \<Rightarrow>
          (if TripSerializer_is_valid s partial r
           then TripSerializer_update s instance (TripSerializer_validated_data r)
           else (s, Inl ValidationError)))"

section \<open>Notions used to state the properties\<close>

text \<open>The sum of a column over the events of one type; the sum over no event is 0.\<close>

definition sum_where :: "(TripEvent \<Rightarrow> real) \<Rightarrow> string \<Rightarrow> TripEvent list \<Rightarrow> real" where
  "sum_where f ty es = sum_list (map f (filter (\<lambda>e. event_type e = ty) es))"

text \<open>The aggregation invariant of a stored trip row against the stored events.\<close>

definition totals_match :: "db \<Rightarrow> Trip \<Rightarrow> bool" where
  "totals_match s t \<longleftrightarrow>
     total_driving_hours t = sum_where duration ''driving'' (trip_events s (trip_id t)) \<and>
     total_on_duty_hours t = sum_where duration ''on_duty'' (trip_events s (trip_id t)) \<and>
     total_off_duty_hours t = sum_where duration ''off_duty'' (trip_events s (trip_id t)) \<and>
     total_sleeper_hours t = sum_where duration ''sleeper'' (trip_events s (trip_id t)) \<and>
     total_miles_driving t = sum_where miles_driven ''driving'' (trip_events s (trip_id t))"

text \<open>Two trip rows that agree on every column but the five aggregated totals.\<close>

definition same_but_totals :: "Trip \<Rightarrow> Trip \<Rightarrow> bool" where
  "same_but_totals x y \<longleftrightarrow>
     trip_id y = trip_id x \<and> date y = date x \<and> driver y = driver x \<and>
     co_driver y = co_driver x \<and> vehicle y = vehicle x \<and>
     shipper_and_commodity y = shipper_and_commodity x \<and> cycle_rule y = cycle_rule x \<and>
     total_mileage_today y = total_mileage_today x \<and> remarks y = remarks x \<and>
     is_completed y = is_completed x"

text \<open>Referential integrity of the event table: every event belongs to a stored trip.\<close>

definition events_have_trips :: "db \<Rightarrow> bool" where
  "events_have_trips s \<longleftrightarrow> list_all (\<lambda>e. ev_trip e \<in> set (map trip_id (trips s))) (events s)"

text \<open>An occurrence of q in a, without regard to the case of the letters A to Z.\<close>

definition occurs_in :: "string \<Rightarrow> string \<Rightarrow> bool" where
  "occurs_in q a \<longleftrightarrow> (\<exists>pre post. lower a = pre @ lower q @ post)"

section \<open>Example stores and requests\<close>

text \<open>Concrete inputs on which the properties below are exercised.\<close>

definition trip_stored :: Trip where
  "trip_stored =
     \<lparr> trip_id = 1, date = 7, driver = 1, co_driver = None, vehicle = 1,
       shipper_and_commodity = [], cycle_rule = ''70hr/8day'',
       total_miles_driving = 100, total_mileage_today = 0,
       total_driving_hours = 2, total_on_duty_hours = 0,
       total_off_duty_hours = 0, total_sleeper_hours = 0,
       remarks = [], is_completed = False \<rparr>"

definition store_a :: db where
  "store_a =
     \<lparr> locations = [\<lparr> loc_id = 1, address = ''1 Main St'', latitude = 10, longitude = 20,
                       city = [], state = [], country = ''USA'', postal_code = [] \<rparr>],
       drivers = [\<lparr> drv_id = 1, driver_initial = ''AB'', full_name = ''Ann Bee'',
                     license_number = ''L-1'', phone_number = [], email = [] \<rparr>],
       carriers = [\<lparr> car_id = 1, name = ''Acme'', dot_number = ''DOT_1'', mc_number = [],
                      carrier_address = [], phone = [] \<rparr>],
       vehicles = [\<lparr> veh_id = 1, truck_number = ''TRK-1'', veh_make = [], model = [],
                      year = None, vin = ''VIN1'', license_plate = [], carrier = 1 \<rparr>],
       trips = [\<lparr> trip_id = 1, date = 7, driver = 1, co_driver = None, vehicle = 1,
                   shipper_and_commodity = [], cycle_rule = ''70hr/8day'',
                   total_miles_driving = 100, total_mileage_today = 0,
                   total_driving_hours = 2, total_on_duty_hours = 0,
                   total_off_duty_hours = 0, total_sleeper_hours = 0,
                   remarks = [], is_completed = False \<rparr>],
       events = [\<lparr> ev_id = Some 1, ev_trip = 1, ev_location = 1, event_type = ''driving'',
                    timestamp = 100, duration = 2, miles_driven = 100, ev_notes = [] \<rparr>] \<rparr>"

definition event_new :: TripEvent where
  "event_new = \<lparr> ev_id = None, ev_trip = 1, ev_location = 1, event_type = ''driving'',
                  timestamp = 200, duration = 3, miles_driven = 150, ev_notes = [] \<rparr>"

definition event_edit :: TripEvent where
  "event_edit = \<lparr> ev_id = Some 1, ev_trip = 1, ev_location = 1, event_type = ''on_duty'',
                  timestamp = 100, duration = 4, miles_driven = 0, ev_notes = [] \<rparr>"

definition store_dest :: db where
  "store_dest =
     \<lparr> locations = [], drivers = [], carriers = [], vehicles = [], trips = [],
       events = [\<lparr> ev_id = Some 1, ev_trip = 1, ev_location = 4, event_type = ''driving_end'',
                    timestamp = 100, duration = 0, miles_driven = 0, ev_notes = [] \<rparr>,
                 \<lparr> ev_id = Some 2, ev_trip = 1, ev_location = 5, event_type = ''driving_start'',
                    timestamp = 300, duration = 0, miles_driven = 0, ev_notes = [] \<rparr>,
                 \<lparr> ev_id = Some 3, ev_trip = 1, ev_location = 6, event_type = ''driving'',
                    timestamp = 400, duration = 1, miles_driven = 9, ev_notes = [] \<rparr>] \<rparr>"

definition request_explicit :: trip_validated_data where
  "request_explicit =
     \<lparr> vd_date = Some 9, vd_driver = Some 1, vd_co_driver = None, vd_vehicle = Some 1,
       vd_shipper_and_commodity = None, vd_cycle_rule = None,
       vd_total_mileage_today = Some 42, vd_remarks = None, vd_initial_events = None,
       vd_current_location = None, vd_pickup_location = None, vd_dropoff_location = None,
       vd_driver_initial = Some ''ZZ'', vd_carrier_name = Some ''Other'',
       vd_truck_number = Some ''TRK-9'' \<rparr>"

definition address_data :: location_data where
  "address_data =
     \<lparr> ld_address = Some ''1 Main St'', ld_latitude = Some 10, ld_longitude = Some 20,
       ld_city = None, ld_state = None, ld_country = None, ld_postal_code = None \<rparr>"

definition trip_created :: Trip where
  "trip_created =
     \<lparr> trip_id = 2, date = 9, driver = 1, co_driver = None, vehicle = 1,
       shipper_and_commodity = [], cycle_rule = ''70hr/8day'',
       total_miles_driving = 0, total_mileage_today = 42,
       total_driving_hours = 0, total_on_duty_hours = 0,
       total_off_duty_hours = 0, total_sleeper_hours = 0,
       remarks = [], is_completed = False \<rparr>"

definition update_totals_request :: trip_update_data where
  "update_totals_request =
     \<lparr> ud_date = None, ud_driver = None, ud_co_driver = None, ud_vehicle = None,
       ud_shipper_and_commodity = None, ud_cycle_rule = None,
       ud_total_mileage_today = Some 7, ud_remarks = None, ud_is_completed = Some True \<rparr>"

definition event_at_main :: event_data where
  "event_at_main =
     \<lparr> ed_event_type = Some ''fuel_stop'', ed_timestamp = Some 300, ed_duration = None,
       ed_miles_driven = None, ed_notes = None, ed_location_data = Some address_data \<rparr>"

definition event_negative :: event_data where
  "event_negative =
     \<lparr> ed_event_type = Some ''driving'', ed_timestamp = Some 300, ed_duration = Some (- 1),
       ed_miles_driven = Some 10, ed_notes = None,
       ed_location_data =
         Some \<lparr> ld_address = Some ''9 Elm St'', ld_latitude = Some 30, ld_longitude = Some 40,
                ld_city = None, ld_state = None, ld_country = None, ld_postal_code = None \<rparr> \<rparr>"

definition empty_store :: db where
  "empty_store =
     \<lparr> locations = [], drivers = [], carriers = [], vehicles = [], trips = [], events = [] \<rparr>"

definition blank_request :: trip_request where
  "blank_request =
     \<lparr> rq_date = None, rq_driver = None, rq_co_driver = None, rq_vehicle = None,
       rq_shipper_and_commodity = None, rq_cycle_rule = None,
       rq_total_miles_driving = None, rq_total_mileage_today = None,
       rq_total_driving_hours = None, rq_total_on_duty_hours = None,
       rq_total_off_duty_hours = None, rq_total_sleeper_hours = None,
       rq_remarks = None, rq_is_completed = None, rq_initial_events = None,
       rq_current_location = None, rq_pickup_location = None, rq_dropoff_location = None,
       rq_driver_initial = None, rq_carrier_name = None, rq_truck_number = None \<rparr>"

definition event_off_map :: event_data where
  "event_off_map =
     \<lparr> ed_event_type = Some ''fuel_stop'', ed_timestamp = Some 300, ed_duration = None,
       ed_miles_driven = None, ed_notes = None,
       ed_location_data =
         Some \<lparr> ld_address = Some ''9 Elm St'', ld_latitude = Some 100, ld_longitude = Some 40,
                ld_city = None, ld_state = None, ld_country = None, ld_postal_code = None \<rparr> \<rparr>"

definition post_negative_duration :: trip_request where
  "post_negative_duration =
     blank_request\<lparr> rq_date := Some 9, rq_driver := Some 1, rq_vehicle := Some 1,
                    rq_initial_events := Some [event_negative] \<rparr>"

definition post_off_map :: trip_request where
  "post_off_map =
     blank_request\<lparr> rq_date := Some 9, rq_driver := Some 1, rq_vehicle := Some 1,
                    rq_initial_events := Some [event_off_map] \<rparr>"

definition post_mileage :: trip_request where
  "post_mileage =
     blank_request\<lparr> rq_date := Some 9, rq_driver := Some 1, rq_vehicle := Some 1,
                    rq_total_mileage_today := Some 42, rq_total_driving_hours := Some 99,
                    rq_initial_events := Some [] \<rparr>"

definition patch_totals :: trip_request where
  "patch_totals =
     blank_request\<lparr> rq_total_mileage_today := Some 7, rq_total_driving_hours := Some 99,
                    rq_is_completed := Some True \<rparr>"

definition post_shorthand :: trip_request where
  "post_shorthand =
     blank_request\<lparr> rq_date := Some 9, rq_driver_initial := Some ''AB'',
                    rq_truck_number := Some ''TRK-1'', rq_initial_events := Some [] \<rparr>"

section \<open>Properties\<close>

subsection \<open>Aggregation\<close>

lemma or_zero_Sum_agg: "or_zero (Sum_agg xs) = sum_list xs"
  by (simp add: or_zero_def Sum_agg_def)

lemma trip_id_set_totals [simp]: "trip_id (set_totals es t) = trip_id t"
  by (simp add: set_totals_def)

lemma totals_match_set_totals:
  "trip_events s (trip_id t) = es \<Longrightarrow> totals_match s (set_totals es t)"
  by (simp add: totals_match_def set_totals_def sum_duration_where_def or_zero_Sum_agg sum_where_def)

lemma same_but_totals_refl [simp]: "same_but_totals x x"
  by (simp add: same_but_totals_def)

lemma same_but_totals_set_totals [simp]: "same_but_totals x (set_totals es x)"
  by (simp add: same_but_totals_def set_totals_def)

lemma same_but_totals_trans:
  "same_but_totals x y \<Longrightarrow> same_but_totals y z \<Longrightarrow> same_but_totals x z"
  by (simp add: same_but_totals_def)

lemma trip_events_calculate_totals [simp]:
  "trip_events (calculate_totals s k) j = trip_events s j"
  by (simp add: trip_events_def calculate_totals_def)

lemma calculate_totals_frame [simp]:
  "events (calculate_totals s k) = events s"
  "locations (calculate_totals s k) = locations s"
  "drivers (calculate_totals s k) = drivers s"
  "carriers (calculate_totals s k) = carriers s"
  "vehicles (calculate_totals s k) = vehicles s"
  by (simp_all add: calculate_totals_def)

lemma trip_ids_calculate_totals [simp]:
  "map trip_id (trips (calculate_totals s k)) = map trip_id (trips s)"
  by (simp add: calculate_totals_def)

lemma calculate_totals_match:
  assumes "t \<in> set (trips (calculate_totals s k))" "trip_id t = k"
  shows "totals_match (calculate_totals s k) t"
proof -
  from assms obtain t0 where t0: "t0 \<in> set (trips s)" "trip_id t0 = k"
    "t = set_totals (trip_events s k) t0"
    by (auto simp: calculate_totals_def split: if_splits)
  have "totals_match s t" using t0 totals_match_set_totals [of s t0 "trip_events s k"] by simp
  then show ?thesis by (simp add: totals_match_def)
qed

lemma calculate_totals_rows:
  assumes "y \<in> set (trips (calculate_totals s k))"
  shows "\<exists>x \<in> set (trips s). same_but_totals x y"
proof -
  from assms obtain x where x: "x \<in> set (trips s)"
    "y = (if trip_id x = k then set_totals (trip_events s k) x else x)"
    by (auto simp: calculate_totals_def)
  then have "same_but_totals x y" by simp
  with x(1) show ?thesis by blast
qed

lemma Model_save_event_frame:
  assumes "Model_save_event s e = (s', r)"
  shows "trips s' = trips s" "locations s' = locations s" "drivers s' = drivers s"
    "carriers s' = carriers s" "vehicles s' = vehicles s"
  using assms by (auto simp: Model_save_event_def Let_def split: if_splits option.splits)

lemma Model_save_event_ok:
  assumes "Model_save_event s e = (s', Inr e')"
  shows "ev_trip e' = ev_trip e" "e' \<in> set (events s')" "ev_trip e \<in> set (map trip_id (trips s))"
  using assms by (auto simp: Model_save_event_def Let_def split: if_splits option.splits)

lemma TripEvent_save_ok:
  assumes "TripEvent_save s e = (s', Inr e')"
  obtains s1 where "Model_save_event s e = (s1, Inr e')" "s' = calculate_totals s1 (ev_trip e')"
  using assms by (auto simp: TripEvent_save_def split: prod.splits sum.splits)

lemma TripEvent_save_totals:
  assumes "TripEvent_save s e = (s', Inr e')"
  shows "e' \<in> set (events s')" "ev_trip e' = ev_trip e"
    "\<exists>t \<in> set (trips s'). trip_id t = ev_trip e"
    "\<forall>t \<in> set (trips s'). trip_id t = ev_trip e \<longrightarrow> totals_match s' t"
proof -
  from assms obtain s1 where s1: "Model_save_event s e = (s1, Inr e')"
    and s': "s' = calculate_totals s1 (ev_trip e')" by (rule TripEvent_save_ok)
  note ok = Model_save_event_ok [OF s1]
  have tr: "trips s1 = trips s" using s1 by (rule Model_save_event_frame)
  show "e' \<in> set (events s')" using ok(2) s' by simp
  show "ev_trip e' = ev_trip e" by (rule ok(1))
  have "ev_trip e \<in> set (map trip_id (trips s'))" using ok(3) tr s' by simp
  then show "\<exists>t \<in> set (trips s'). trip_id t = ev_trip e" by auto
  show "\<forall>t \<in> set (trips s'). trip_id t = ev_trip e \<longrightarrow> totals_match s' t"
    using calculate_totals_match [of _ s1 "ev_trip e'"] ok(1) s' by simp
qed

lemma TripEvent_save_frame:
  assumes "TripEvent_save s e = (s', r)"
  shows "locations s' = locations s" "drivers s' = drivers s"
    "carriers s' = carriers s" "vehicles s' = vehicles s"
    "map trip_id (trips s') = map trip_id (trips s)"
    "\<forall>y \<in> set (trips s'). \<exists>x \<in> set (trips s). same_but_totals x y"
proof -
  obtain s1 r1 where m: "Model_save_event s e = (s1, r1)" by (cases "Model_save_event s e")
  note fr = Model_save_event_frame [OF m]
  from assms m have s': "s' = s1 \<or> (\<exists>k. s' = calculate_totals s1 k)"
    by (auto simp: TripEvent_save_def split: sum.splits)
  show "locations s' = locations s" using s' fr by auto
  show "drivers s' = drivers s" using s' fr by auto
  show "carriers s' = carriers s" using s' fr by auto
  show "vehicles s' = vehicles s" using s' fr by auto
  show "map trip_id (trips s') = map trip_id (trips s)" using s' fr by auto
  show "\<forall>y \<in> set (trips s'). \<exists>x \<in> set (trips s). same_but_totals x y"
    using s' fr(1) calculate_totals_rows by (metis same_but_totals_refl)
qed

text \<open>
  C2: after every successful save of a TripEvent, the trip it belongs to is stored, and
  each stored row of that trip has its four hour totals equal to the sums of duration over
  the trip's events of type driving, on_duty, off_duty and sleeper, and its
  total_miles_driving equal to the sum of miles_driven over its driving events; a total
  over no matching event is 0 (the columns are numbers, never null).
\<close>

theorem save_recomputes_totals:
  assumes "TripEvent_save s e = (s', Inr e')"
  shows "e' \<in> set (events s') \<and> ev_trip e' = ev_trip e \<and>
         (\<exists>t \<in> set (trips s'). trip_id t = ev_trip e) \<and>
         (\<forall>t \<in> set (trips s'). trip_id t = ev_trip e \<longrightarrow>
             totals_match s' t \<and>
             (''driving'' \<notin> event_type ` set (trip_events s' (trip_id t)) \<longrightarrow>
                total_driving_hours t = 0 \<and> total_miles_driving t = 0) \<and>
             (''on_duty'' \<notin> event_type ` set (trip_events s' (trip_id t)) \<longrightarrow>
                total_on_duty_hours t = 0) \<and>
             (''off_duty'' \<notin> event_type ` set (trip_events s' (trip_id t)) \<longrightarrow>
                total_off_duty_hours t = 0) \<and>
             (''sleeper'' \<notin> event_type ` set (trip_events s' (trip_id t)) \<longrightarrow>
                total_sleeper_hours t = 0))"
proof -
  note t = TripEvent_save_totals [OF assms]
  have zero: "sum_where f ty es = 0" if "ty \<notin> event_type ` set es" for f ty and es :: "TripEvent list"
  proof -
    from that have "filter (\<lambda>x. event_type x = ty) es = []"
      by (auto simp: filter_empty_conv)
    then show ?thesis by (simp add: sum_where_def)
  qed
  have "totals_match s' t \<and>
             (''driving'' \<notin> event_type ` set (trip_events s' (trip_id t)) \<longrightarrow>
                total_driving_hours t = 0 \<and> total_miles_driving t = 0) \<and>
             (''on_duty'' \<notin> event_type ` set (trip_events s' (trip_id t)) \<longrightarrow>
                total_on_duty_hours t = 0) \<and>
             (''off_duty'' \<notin> event_type ` set (trip_events s' (trip_id t)) \<longrightarrow>
                total_off_duty_hours t = 0) \<and>
             (''sleeper'' \<notin> event_type ` set (trip_events s' (trip_id t)) \<longrightarrow>
                total_sleeper_hours t = 0)"
    if "t \<in> set (trips s')" "trip_id t = ev_trip e" for t
  proof -
    from that t(4) have m: "totals_match s' t" by blast
    then show ?thesis using zero by (simp add: totals_match_def)
  qed
  then show ?thesis using t(1,2,3) by blast
qed

lemma save_new_eval:
  "TripEvent_save store_a event_new =
     (calculate_totals (store_a\<lparr> events := events store_a @ [event_new\<lparr> ev_id := Some 2 \<rparr>] \<rparr>) 1,
      Inr (event_new\<lparr> ev_id := Some 2 \<rparr>))"
  by (simp add: TripEvent_save_def Model_save_event_def store_a_def event_new_def new_pk_def Let_def numeral_2_eq_2
      stored_event_ids_def)

theorem save_recomputes_totals_witness:
  "TripEvent_save store_a event_new =
     (calculate_totals (store_a\<lparr> events := events store_a @ [event_new\<lparr> ev_id := Some 2 \<rparr>] \<rparr>) 1,
      Inr (event_new\<lparr> ev_id := Some 2 \<rparr>)) \<and>
   map total_driving_hours
     (trips (calculate_totals (store_a\<lparr> events := events store_a @ [event_new\<lparr> ev_id := Some 2 \<rparr>] \<rparr>) 1))
     = [5]"
proof -
  let ?s = "calculate_totals (store_a\<lparr> events := events store_a @ [event_new\<lparr> ev_id := Some 2 \<rparr>] \<rparr>) 1"
  have h: "TripEvent_save store_a event_new = (?s, Inr (event_new\<lparr> ev_id := Some 2 \<rparr>))"
    by (rule save_new_eval)
  have ev: "trip_events ?s 1 = events store_a @ [event_new\<lparr> ev_id := Some 2 \<rparr>]"
    by (simp add: trip_events_def store_a_def event_new_def)
  obtain t where t: "trips ?s = [t]" "trip_id t = 1"
    by (simp add: calculate_totals_def store_a_def)
  have k: "ev_trip event_new = 1" by (simp add: event_new_def)
  from save_recomputes_totals [OF h]
  have "\<forall>t \<in> set (trips ?s). trip_id t = ev_trip event_new \<longrightarrow> totals_match ?s t"
    by blast
  with t k have "totals_match ?s t" by simp
  then have "total_driving_hours t = 5"
    unfolding totals_match_def t(2) ev by (simp add: sum_where_def store_a_def event_new_def)
  then show ?thesis using h t by simp
qed

text \<open>
  C10: a successful save of an event whose primary key is already stored is an update:
  the row with that key is replaced, no row is added, and the totals of the parent trip
  are recomputed from the stored events and stored, exactly as after an insert.
\<close>

theorem update_recomputes_totals:
  assumes "ev_id e = Some i" "Some i \<in> set (map ev_id (events s))"
    "TripEvent_save s e = (s', Inr e')"
  shows "e' = e \<and> length (events s') = length (events s) \<and> e \<in> set (events s') \<and>
         (\<forall>x \<in> set (events s'). ev_id x = Some i \<longrightarrow> x = e) \<and>
         (\<exists>t \<in> set (trips s'). trip_id t = ev_trip e) \<and>
         (\<forall>t \<in> set (trips s'). trip_id t = ev_trip e \<longrightarrow> totals_match s' t)"
proof -
  from assms(3) obtain s1 where s1: "Model_save_event s e = (s1, Inr e')"
    and s': "s' = calculate_totals s1 (ev_trip e')" by (rule TripEvent_save_ok)
  from s1 assms(1,2) have e': "e' = e"
    and ev: "events s1 = map (\<lambda>x. if ev_id x = Some i then e else x) (events s)"
    by (auto simp: Model_save_event_def split: if_splits)
  have len: "length (events s') = length (events s)" using ev s' by simp
  have uniq: "\<forall>x \<in> set (events s'). ev_id x = Some i \<longrightarrow> x = e"
    using ev s' by auto
  note t = TripEvent_save_totals [OF assms(3)]
  show ?thesis using e' len uniq t by blast
qed

lemma save_edit_eval:
  "TripEvent_save store_a event_edit =
     (calculate_totals (store_a\<lparr> events := [event_edit] \<rparr>) 1, Inr event_edit)"
  by (simp add: TripEvent_save_def Model_save_event_def store_a_def event_edit_def)

theorem update_recomputes_totals_witness:
  "ev_id event_edit = Some 1 \<and> Some 1 \<in> set (map ev_id (events store_a)) \<and>
   TripEvent_save store_a event_edit =
     (calculate_totals (store_a\<lparr> events := [event_edit] \<rparr>) 1, Inr event_edit) \<and>
   map total_driving_hours (trips (calculate_totals (store_a\<lparr> events := [event_edit] \<rparr>) 1)) = [0] \<and>
   map total_on_duty_hours (trips (calculate_totals (store_a\<lparr> events := [event_edit] \<rparr>) 1)) = [4]"
proof -
  let ?s = "calculate_totals (store_a\<lparr> events := [event_edit] \<rparr>) 1"
  have h1: "ev_id event_edit = Some 1" by (simp add: event_edit_def)
  have h2: "Some 1 \<in> set (map ev_id (events store_a))" by (simp add: store_a_def)
  have h3: "TripEvent_save store_a event_edit = (?s, Inr event_edit)" by (rule save_edit_eval)
  have ev: "trip_events ?s 1 = [event_edit]"
    by (simp add: trip_events_def event_edit_def)
  obtain t where t: "trips ?s = [t]" "trip_id t = 1"
    by (simp add: calculate_totals_def store_a_def)
  have k: "ev_trip event_edit = 1" by (simp add: event_edit_def)
  from update_recomputes_totals [OF h1 h2 h3]
  have "\<forall>t \<in> set (trips ?s). trip_id t = ev_trip event_edit \<longrightarrow> totals_match ?s t"
    by blast
  with t k have "totals_match ?s t" by simp
  then have "total_driving_hours t = 0 \<and> total_on_duty_hours t = 4"
    unfolding totals_match_def t(2) ev by (simp add: sum_where_def event_edit_def)
  then show ?thesis using h1 h2 h3 t by simp
qed

subsection \<open>The destination of a trip\<close>

lemma first_None_iff: "first xs = None \<longleftrightarrow> xs = []"
  by (simp add: first_def split: list.splits)

lemma sort_key_Nil_iff: "sort_key f xs = [] \<longleftrightarrow> xs = []"
  by (metis length_sort length_0_conv)

lemma first_sort_key:
  assumes "first (sort_key f xs) = Some x"
  shows "x \<in> set xs \<and> (\<forall>y \<in> set xs. f x \<le> f y)"
proof -
  from assms obtain ys where ys: "sort_key f xs = x # ys"
    by (auto simp: first_def split: list.splits)
  have "x \<in> set (sort_key f xs)" using ys by simp
  then have mem: "x \<in> set xs" by simp
  have "sorted (map f (sort_key f xs))" by (rule sorted_sort_key)
  then have "\<forall>y \<in> set (sort_key f xs). f x \<le> f y" using ys by auto
  then show ?thesis using mem by simp
qed

lemma boundary_not_choice:
  "ty \<in> set EVENT_TYPE_CHOICES \<Longrightarrow> ty \<noteq> ''driving_start'' \<and> ty \<noteq> ''driving_end''"
  by (auto simp: EVENT_TYPE_CHOICES_def)

text \<open>
  C5: destination_location of a trip is None exactly when no event of the trip has the
  type driving_start or driving_end; otherwise it is the location of such an event whose
  timestamp is the greatest among them. For a trip all of whose events carry a type of
  EVENT_TYPE_CHOICES it is None.
\<close>

theorem destination_location_spec:
  "(destination_location s k = None \<longleftrightarrow>
      (\<forall>e \<in> set (trip_events s k). event_type e \<noteq> ''driving_start'' \<and> event_type e \<noteq> ''driving_end'')) \<and>
   (\<forall>l. destination_location s k = Some l \<longrightarrow>
      (\<exists>e \<in> set (trip_events s k).
         ev_location e = l \<and> event_type e \<in> {''driving_start'', ''driving_end''} \<and>
         (\<forall>e' \<in> set (trip_events s k).
            event_type e' \<in> {''driving_start'', ''driving_end''} \<longrightarrow> timestamp e' \<le> timestamp e))) \<and>
   ((\<forall>e \<in> set (trip_events s k). event_type e \<in> set EVENT_TYPE_CHOICES) \<longrightarrow>
      destination_location s k = None)"
proof -
  let ?P = "\<lambda>e. event_type e \<in> set [''driving_start'', ''driving_end'']"
  let ?m = "filter ?P (trip_events s k)"
  let ?f = "\<lambda>e. - timestamp e"
  have "destination_location s k = None \<longleftrightarrow> first (sort_key ?f ?m) = None"
    by (simp add: destination_location_def split: option.splits)
  then have none: "destination_location s k = None \<longleftrightarrow> ?m = []"
    by (simp only: first_None_iff sort_key_Nil_iff)
  have a: "destination_location s k = None \<longleftrightarrow>
      (\<forall>e \<in> set (trip_events s k). event_type e \<noteq> ''driving_start'' \<and> event_type e \<noteq> ''driving_end'')"
    unfolding none by (auto simp: filter_empty_conv)
  have b: "\<exists>e \<in> set (trip_events s k).
         ev_location e = l \<and> event_type e \<in> {''driving_start'', ''driving_end''} \<and>
         (\<forall>e' \<in> set (trip_events s k).
            event_type e' \<in> {''driving_start'', ''driving_end''} \<longrightarrow> timestamp e' \<le> timestamp e)"
    if "destination_location s k = Some l" for l
  proof -
    from that obtain e where e: "first (sort_key ?f ?m) = Some e" "ev_location e = l"
      by (auto simp: destination_location_def split: option.splits)
    from first_sort_key [OF e(1)] have "e \<in> set ?m" and "\<forall>y \<in> set ?m. ?f e \<le> ?f y"
      by blast+
    then show ?thesis using e(2) by auto
  qed
  have c: "destination_location s k = None"
    if "\<forall>e \<in> set (trip_events s k). event_type e \<in> set EVENT_TYPE_CHOICES"
    unfolding a using that boundary_not_choice by blast
  show ?thesis using a b c by blast
qed

theorem destination_location_spec_witness:
  "destination_location store_dest 1 = Some 5 \<and>
   (\<exists>e \<in> set (trip_events store_dest 1).
      ev_location e = 5 \<and> event_type e \<in> {''driving_start'', ''driving_end''} \<and>
      (\<forall>e' \<in> set (trip_events store_dest 1).
         event_type e' \<in> {''driving_start'', ''driving_end''} \<longrightarrow> timestamp e' \<le> timestamp e)) \<and>
   set (map event_type (trip_events store_a 1)) \<subseteq> set EVENT_TYPE_CHOICES \<and>
   destination_location store_a 1 = None"
proof -
  have h1: "destination_location store_dest 1 = Some 5"
    by (simp add: destination_location_def store_dest_def trip_events_def first_def)
  have h2: "set (map event_type (trip_events store_a 1)) \<subseteq> set EVENT_TYPE_CHOICES"
    by (simp add: store_a_def trip_events_def EVENT_TYPE_CHOICES_def)
  then have h2': "\<forall>e \<in> set (trip_events store_a 1). event_type e \<in> set EVENT_TYPE_CHOICES"
    by auto
  from destination_location_spec [of store_dest 1] h1
  have c1: "\<exists>e \<in> set (trip_events store_dest 1).
      ev_location e = 5 \<and> event_type e \<in> {''driving_start'', ''driving_end''} \<and>
      (\<forall>e' \<in> set (trip_events store_dest 1).
         event_type e' \<in> {''driving_start'', ''driving_end''} \<longrightarrow> timestamp e' \<le> timestamp e)"
    by blast
  from destination_location_spec [of store_a 1] h2'
  have c2: "destination_location store_a 1 = None" by blast
  show ?thesis using h1 h2 c1 c2 by blast
qed

subsection \<open>Search\<close>

lemma contains_iff: "contains a q \<longleftrightarrow> (\<exists>pre post. a = pre @ q @ post)"
proof (induction a)
  case Nil
  then show ?case by auto
next
  case (Cons c cs)
  show ?case
  proof
    assume "contains (c # cs) q"
    then consider "take (length q) (c # cs) = q" | "contains cs q" by auto
    then show "\<exists>pre post. c # cs = pre @ q @ post"
    proof cases
      case 1
      then have "c # cs = [] @ q @ drop (length q) (c # cs)"
        by (metis append_Nil append_take_drop_id)
      then show ?thesis by blast
    next
      case 2
      with Cons.IH obtain pre post where "cs = pre @ q @ post" by blast
      then have "c # cs = (c # pre) @ q @ post" by simp
      then show ?thesis by blast
    qed
  next
    assume "\<exists>pre post. c # cs = pre @ q @ post"
    then obtain pre post where pp: "c # cs = pre @ q @ post" by blast
    show "contains (c # cs) q"
    proof (cases pre)
      case Nil
      with pp have "take (length q) (c # cs) = q" by simp
      then show ?thesis by simp
    next
      case (Cons p ps)
      with pp have "cs = ps @ q @ post" by simp
      with Cons.IH have "contains cs q" by blast
      then show ?thesis by simp
    qed
  qed
qed

lemma icontains_occurs: "icontains a q \<longleftrightarrow> occurs_in q a"
  by (simp add: icontains_def occurs_in_def contains_iff)

text \<open>
  C9: the search returns at most 10 stored locations, the address of each contains the
  query without regard to case, and without a query, or with an empty one, the result is
  the empty list.
\<close>

theorem search_spec:
  "length (search s q) \<le> 10 \<and>
   (\<forall>l \<in> set (search s q). l \<in> set (locations s) \<and> (\<exists>x. q = Some x \<and> x \<noteq> [] \<and> occurs_in x (address l))) \<and>
   (q = None \<or> q = Some [] \<longrightarrow> search s q = [])"
proof -
  have a: "length (search s q) \<le> 10" by (simp add: search_def Let_def)
  have b: "l \<in> set (locations s) \<and> (\<exists>x. q = Some x \<and> x \<noteq> [] \<and> occurs_in x (address l))"
    if "l \<in> set (search s q)" for l
  proof (cases q)
    case None
    with that show ?thesis by (simp add: search_def)
  next
    case (Some x)
    with that have x: "x \<noteq> []" by (auto simp: search_def split: if_splits)
    with that Some have "l \<in> set (filter (\<lambda>l. icontains (address l) x) (Location_objects_all s))"
      by (auto simp: search_def dest: in_set_takeD)
    then show ?thesis using Some x by (simp add: Location_objects_all_def icontains_occurs)
  qed
  have c: "q = None \<or> q = Some [] \<longrightarrow> search s q = []" by (auto simp: search_def)
  show ?thesis using a b c by blast
qed

theorem search_spec_witness:
  "search store_a (Some ''MAIN'') = locations store_a \<and>
   list_all (\<lambda>l. l \<in> set (locations store_a) \<and> occurs_in ''MAIN'' (address l))
     (search store_a (Some ''MAIN'')) \<and>
   search store_a (Some []) = [] \<and> search store_a None = []"
proof -
  have h: "search store_a (Some ''MAIN'') = locations store_a"
    by (simp add: search_def store_a_def Location_objects_all_def icontains_def lower_def lower_char_def)
  have e1: "(None :: string option) = None \<or> None = Some []" by simp
  have e2: "Some [] = None \<or> Some [] = Some ([] :: string)" by simp
  from search_spec [of store_a "Some ''MAIN''"]
  have "list_all (\<lambda>l. l \<in> set (locations store_a) \<and> occurs_in ''MAIN'' (address l))
     (search store_a (Some ''MAIN''))"
    unfolding list_all_iff by blast
  moreover from search_spec [of store_a None] e1 have "search store_a None = []" by blast
  moreover from search_spec [of store_a "Some []"] e2 have "search store_a (Some []) = []" by blast
  ultimately show ?thesis using h by blast
qed

subsection \<open>Trip intake: the steps of create\<close>

lemma fold_max_ge: "(m::nat) \<le> fold max ks m"
  by (induction ks arbitrary: m) (auto intro: order_trans [OF max.cobounded2])

lemma fold_max_mem: "(k::nat) \<in> set ks \<Longrightarrow> k \<le> fold max ks m"
proof (induction ks arbitrary: m)
  case Nil
  then show ?case by simp
next
  case (Cons a ks)
  show ?case
  proof (cases "k = a")
    case True
    have "a \<le> max a m" by simp
    also have "\<dots> \<le> fold max ks (max a m)" by (rule fold_max_ge)
    finally show ?thesis using True by simp
  next
    case False
    with Cons.prems have "k \<in> set ks" by simp
    then show ?thesis using Cons.IH by simp
  qed
qed

lemma new_pk_fresh: "new_pk ks \<notin> set ks"
  using fold_max_mem [of "new_pk ks" ks 0] by (auto simp: new_pk_def)

lemma legacy_append_None [simp]: "legacy_append None ty note acc = Inr acc"
  by (simp add: legacy_append_def)

lemma legacy_append_Some [simp]: "legacy_append (Some x) ty note acc = Inl AttributeError"
  by (simp add: legacy_append_def timezone_now_def)

lemma legacy_locations_absent:
  "vd_current_location vd = None \<Longrightarrow> vd_pickup_location vd = None \<Longrightarrow>
   vd_dropoff_location vd = None \<Longrightarrow> legacy_locations vd = Inr []"
  by (simp add: legacy_locations_def)

lemma legacy_locations_present:
  assumes "vd_current_location vd \<noteq> None \<or> vd_pickup_location vd \<noteq> None \<or>
    vd_dropoff_location vd \<noteq> None"
  shows "legacy_locations vd = Inl AttributeError"
proof (cases "vd_current_location vd")
  case (Some a)
  then show ?thesis by (simp add: legacy_locations_def)
next
  case None
  show ?thesis
  proof (cases "vd_pickup_location vd")
    case (Some a)
    with None show ?thesis by (simp add: legacy_locations_def)
  next
    case n2: None
    with None assms obtain a where "vd_dropoff_location vd = Some a" by auto
    with None n2 show ?thesis by (simp add: legacy_locations_def)
  qed
qed

lemma legacy_locations_Inr:
  assumes "legacy_locations vd = Inr l"
  shows "vd_current_location vd = None" "vd_pickup_location vd = None"
    "vd_dropoff_location vd = None" "l = []"
proof -
  have n: "\<not> (vd_current_location vd \<noteq> None \<or> vd_pickup_location vd \<noteq> None \<or>
    vd_dropoff_location vd \<noteq> None)"
  proof
    assume "vd_current_location vd \<noteq> None \<or> vd_pickup_location vd \<noteq> None \<or>
      vd_dropoff_location vd \<noteq> None"
    then have "legacy_locations vd = Inl AttributeError" by (rule legacy_locations_present)
    with assms show False by simp
  qed
  then show "vd_current_location vd = None" "vd_pickup_location vd = None"
    "vd_dropoff_location vd = None" by simp_all
  with assms show "l = []" by (simp add: legacy_locations_absent)
qed

lemma insert_Location_frame:
  assumes "insert_Location s l = (s', r)"
  shows "drivers s' = drivers s" "carriers s' = carriers s" "vehicles s' = vehicles s"
    "trips s' = trips s" "events s' = events s"
  using assms by (auto simp: insert_Location_def Let_def split: if_splits)

lemma LocationSerializer_create_frame:
  assumes "LocationSerializer_create s d = (s', r)"
  shows "drivers s' = drivers s" "carriers s' = carriers s" "vehicles s' = vehicles s"
    "trips s' = trips s" "events s' = events s"
  using assms
  by (auto simp: LocationSerializer_create_def split: option.splits list.splits
      dest: insert_Location_frame)

lemma rows_unchanged:
  "trips s' = trips s \<Longrightarrow> \<forall>y \<in> set (trips s'). \<exists>x \<in> set (trips s). same_but_totals x y"
  by (metis same_but_totals_refl)

lemma TripEventCreateSerializer_create_cases:
  assumes "TripEventCreateSerializer_create s trip d = (s', r)"
  obtains (unchanged) "s' = s"
  | (location) ld r1 where "LocationSerializer_create s ld = (s', r1)"
  | (saved) ld s1 r1 e where "LocationSerializer_create s ld = (s1, r1)"
      "TripEvent_save s1 e = (s', r)"
  using assms
  by (auto simp: TripEventCreateSerializer_create_def
      split: option.splits if_splits prod.splits sum.splits)

lemma TripEventCreateSerializer_create_frame:
  assumes "TripEventCreateSerializer_create s trip d = (s', r)"
  shows "drivers s' = drivers s" "carriers s' = carriers s" "vehicles s' = vehicles s"
    "map trip_id (trips s') = map trip_id (trips s)"
    "\<forall>y \<in> set (trips s'). \<exists>x \<in> set (trips s). same_but_totals x y"
proof -
  from assms have "drivers s' = drivers s \<and> carriers s' = carriers s \<and> vehicles s' = vehicles s
    \<and> map trip_id (trips s') = map trip_id (trips s)
    \<and> (\<forall>y \<in> set (trips s'). \<exists>x \<in> set (trips s). same_but_totals x y)"
  proof (cases rule: TripEventCreateSerializer_create_cases)
    case unchanged
    then show ?thesis using rows_unchanged [of s' s] by simp
  next
    case (location ld r1)
    note fr = LocationSerializer_create_frame [OF location]
    show ?thesis using fr rows_unchanged [of s' s] by simp
  next
    case (saved ld s1 r1 e)
    note fr = LocationSerializer_create_frame [OF saved(1)]
    note fs = TripEvent_save_frame [OF saved(2)]
    show ?thesis using fr fs by simp
  qed
  then show "drivers s' = drivers s" "carriers s' = carriers s" "vehicles s' = vehicles s"
    "map trip_id (trips s') = map trip_id (trips s)"
    "\<forall>y \<in> set (trips s'). \<exists>x \<in> set (trips s). same_but_totals x y"
    by blast+
qed

lemma TripEventCreateSerializer_create_Inr:
  assumes "TripEventCreateSerializer_create s trip d = (s', Inr e)"
  obtains ld s1 l e0 k where "ed_location_data d = Some ld" "LocationSerializer_is_valid s ld"
    "LocationSerializer_create s ld = (s1, Inr l)" "trip = Some k"
    "TripEvent_save s1 e0 = (s', Inr e)" "ev_trip e0 = k" "ev_location e0 = loc_id l"
  using assms
  by (auto simp: TripEventCreateSerializer_create_def
      split: option.splits if_splits prod.splits sum.splits)

lemma TripEventCreateSerializer_create_totals:
  assumes "TripEventCreateSerializer_create s (Some k) d = (s', Inr e)"
  shows "\<forall>t \<in> set (trips s'). trip_id t = k \<longrightarrow> totals_match s' t"
proof -
  from assms obtain s1 e0 where sv: "TripEvent_save s1 e0 = (s', Inr e)" and k: "ev_trip e0 = k"
    by (rule TripEventCreateSerializer_create_Inr) auto
  from TripEvent_save_totals(4) [OF sv] k show ?thesis by simp
qed

lemma create_events_frame:
  assumes "create_events s k ds = (s', r)"
  shows "drivers s' = drivers s \<and> carriers s' = carriers s \<and> vehicles s' = vehicles s \<and>
    map trip_id (trips s') = map trip_id (trips s) \<and>
    (\<forall>y \<in> set (trips s'). \<exists>x \<in> set (trips s). same_but_totals x y)"
  using assms
proof (induction ds arbitrary: s)
  case Nil
  then have "s' = s" by simp
  then show ?case using rows_unchanged [of s' s] by simp
next
  case (Cons d ds)
  show ?case
  proof (cases "TripEventCreateSerializer_is_valid d")
    case False
    with Cons.prems have "create_events s k ds = (s', r)" by simp
    then show ?thesis by (rule Cons.IH)
  next
    case True
    obtain s1 r1 where c: "TripEventCreateSerializer_create s (Some k) d = (s1, r1)"
      by (cases "TripEventCreateSerializer_create s (Some k) d")
    note f1 = TripEventCreateSerializer_create_frame [OF c]
    show ?thesis
    proof (cases r1)
      case (Inl err)
      with Cons.prems True c have "s' = s1" by simp
      then show ?thesis using f1 by simp
    next
      case (Inr e)
      with Cons.prems True c have "create_events s1 k ds = (s', r)" by simp
      from Cons.IH [OF this] f1 show ?thesis
        by (metis same_but_totals_trans)
    qed
  qed
qed

lemma totals_match_cong:
  "trip_events s' (trip_id t) = trip_events s (trip_id t) \<Longrightarrow> totals_match s' t = totals_match s t"
  by (simp add: totals_match_def)

lemma create_events_totals:
  assumes "create_events s k ds = (s', Inr u)"
    and "\<forall>t \<in> set (trips s). trip_id t = k \<longrightarrow> totals_match s t"
  shows "\<forall>t \<in> set (trips s'). trip_id t = k \<longrightarrow> totals_match s' t"
  using assms
proof (induction ds arbitrary: s)
  case Nil
  then show ?case by simp
next
  case (Cons d ds)
  show ?case
  proof (cases "TripEventCreateSerializer_is_valid d")
    case False
    with Cons.prems(1) have "create_events s k ds = (s', Inr u)" by simp
    from Cons.IH [OF this Cons.prems(2)] show ?thesis .
  next
    case True
    obtain s1 r1 where c: "TripEventCreateSerializer_create s (Some k) d = (s1, r1)"
      by (cases "TripEventCreateSerializer_create s (Some k) d")
    show ?thesis
    proof (cases r1)
      case (Inl err)
      with Cons.prems(1) True c show ?thesis by simp
    next
      case (Inr e)
      with Cons.prems(1) True c have r: "create_events s1 k ds = (s', Inr u)" by simp
      from c Inr have "\<forall>t \<in> set (trips s1). trip_id t = k \<longrightarrow> totals_match s1 t"
        using TripEventCreateSerializer_create_totals by blast
      from Cons.IH [OF r this] show ?thesis .
    qed
  qed
qed

lemma resolve_driver_explicit:
  "vd_driver vd = Some d \<Longrightarrow> resolve_driver s vd = (s, Inr vd)"
  by (simp add: resolve_driver_def)

lemma resolve_vehicle_explicit:
  "vd_vehicle vd = Some v \<Longrightarrow> resolve_vehicle s vd = (s, Inr vd)"
  by (simp add: resolve_vehicle_def)

lemma insert_Driver_frame:
  assumes "insert_Driver s d = (s', r)"
  shows "locations s' = locations s" "carriers s' = carriers s" "vehicles s' = vehicles s"
    "trips s' = trips s" "events s' = events s"
  using assms by (auto simp: insert_Driver_def Let_def split: if_splits)

lemma insert_Carrier_frame:
  assumes "insert_Carrier s c = (s', r)"
  shows "locations s' = locations s" "drivers s' = drivers s" "vehicles s' = vehicles s"
    "trips s' = trips s" "events s' = events s"
  using assms by (auto simp: insert_Carrier_def Let_def split: if_splits)

lemma insert_Vehicle_frame:
  assumes "insert_Vehicle s v = (s', r)"
  shows "locations s' = locations s" "drivers s' = drivers s" "carriers s' = carriers s"
    "trips s' = trips s" "events s' = events s"
  using assms by (auto simp: insert_Vehicle_def Let_def split: if_splits)

lemma Driver_get_or_create_frame:
  assumes "Driver_get_or_create s di = (s', r)"
  shows "locations s' = locations s" "carriers s' = carriers s" "vehicles s' = vehicles s"
    "trips s' = trips s" "events s' = events s"
  using assms
  by (auto simp: Driver_get_or_create_def split: list.splits dest: insert_Driver_frame)

lemma resolve_driver_frame:
  assumes "resolve_driver s vd = (s', r)"
  shows "locations s' = locations s" "carriers s' = carriers s" "vehicles s' = vehicles s"
    "trips s' = trips s" "events s' = events s"
  using assms
  by (auto simp: resolve_driver_def split: if_splits prod.splits sum.splits
      dest: Driver_get_or_create_frame)

lemma resolve_driver_data:
  assumes "resolve_driver s vd = (s', Inr vd')"
  shows "vd' = vd\<lparr> vd_driver := vd_driver vd' \<rparr>"
  using assms
  by (auto simp: resolve_driver_def split: if_splits prod.splits sum.splits)

lemma Carrier_get_or_create_frame:
  assumes "Carrier_get_or_create s cn = (s', r)"
  shows "locations s' = locations s" "drivers s' = drivers s" "vehicles s' = vehicles s"
    "trips s' = trips s" "events s' = events s"
  using assms
  by (auto simp: Carrier_get_or_create_def split: list.splits dest: insert_Carrier_frame)

lemma resolve_carrier_frame:
  assumes "resolve_carrier s cn = (s', r)"
  shows "locations s' = locations s" "drivers s' = drivers s" "vehicles s' = vehicles s"
    "trips s' = trips s" "events s' = events s"
  using assms
  by (auto simp: resolve_carrier_def split: if_splits option.splits
      dest: Carrier_get_or_create_frame insert_Carrier_frame)

lemma Vehicle_get_or_create_frame:
  assumes "Vehicle_get_or_create s tn c = (s', r)"
  shows "locations s' = locations s" "drivers s' = drivers s" "carriers s' = carriers s"
    "trips s' = trips s" "events s' = events s"
  using assms
  by (auto simp: Vehicle_get_or_create_def split: list.splits dest: insert_Vehicle_frame)

lemma resolve_vehicle_cases:
  assumes "resolve_vehicle s vd = (s', r)"
  obtains (skip) "s' = s" "r = Inr vd"
  | (no_carrier) err where "resolve_carrier s (vd_carrier_name vd) = (s', Inl err)"
  | (vehicle) s1 c r1 where "resolve_carrier s (vd_carrier_name vd) = (s1, Inr c)"
      "Vehicle_get_or_create s1 (get_default [] (vd_truck_number vd)) (car_id c) = (s', r1)"
  using assms
  by (auto simp: resolve_vehicle_def split: if_splits prod.splits sum.splits)

lemma resolve_vehicle_frame:
  assumes "resolve_vehicle s vd = (s', r)"
  shows "locations s' = locations s" "drivers s' = drivers s"
    "trips s' = trips s" "events s' = events s"
proof -
  from assms have "locations s' = locations s \<and> drivers s' = drivers s \<and>
    trips s' = trips s \<and> events s' = events s"
  proof (cases rule: resolve_vehicle_cases)
    case skip
    then show ?thesis by simp
  next
    case (no_carrier err)
    note f = resolve_carrier_frame [OF no_carrier]
    show ?thesis using f by simp
  next
    case (vehicle s1 c r1)
    note f = resolve_carrier_frame [OF vehicle(1)]
    note g = Vehicle_get_or_create_frame [OF vehicle(2)]
    show ?thesis using f g by simp
  qed
  then show "locations s' = locations s" "drivers s' = drivers s"
    "trips s' = trips s" "events s' = events s" by simp_all
qed

lemma resolve_vehicle_data:
  assumes "resolve_vehicle s vd = (s', Inr vd')"
  shows "vd' = vd\<lparr> vd_vehicle := vd_vehicle vd' \<rparr>"
  using assms
  by (auto simp: resolve_vehicle_def split: if_splits prod.splits sum.splits)

lemma Trip_objects_create_Inr:
  assumes "Trip_objects_create s vd = (s', Inr t)"
  shows "trips s' = trips s @ [t]" "locations s' = locations s" "drivers s' = drivers s"
    "carriers s' = carriers s" "vehicles s' = vehicles s" "events s' = events s"
    "trip_id t = new_pk (map trip_id (trips s))"
    "vd_driver vd = Some (driver t)" "vd_vehicle vd = Some (vehicle t)"
    "total_mileage_today t = get_default 0 (vd_total_mileage_today vd)"
    "total_driving_hours t = 0" "total_on_duty_hours t = 0" "total_off_duty_hours t = 0"
    "total_sleeper_hours t = 0" "total_miles_driving t = 0"
  using assms
  by (auto simp: Trip_objects_create_def Let_def split: option.splits if_splits)

lemma create_Inr:
  assumes "TripCreateSerializer_create s vd = (s', Inr t)"
  obtains s1 vd1 s2 vd2 s3 t0 where
    "legacy_locations vd = Inr []"
    "resolve_driver s vd = (s1, Inr vd1)"
    "resolve_vehicle s1 vd1 = (s2, Inr vd2)"
    "Trip_objects_create s2 vd2 = (s3, Inr t0)"
    "create_events s3 (trip_id t0) (get_default [] (vd_initial_events vd)) = (s', Inr ())"
    "t = get_default t0 (find (\<lambda>x. trip_id x = trip_id t0) (trips s'))"
proof -
  from assms have b: "create_body s vd = (s', Inr t)"
    by (auto simp: TripCreateSerializer_create_def split: prod.splits sum.splits)
  then obtain l where l: "legacy_locations vd = Inr l"
    by (auto simp: create_body_def Let_def split: sum.splits)
  then have l0: "l = []" by (rule legacy_locations_Inr(4))
  from b l l0 that show ?thesis
    by (auto simp: create_body_def Let_def split: sum.splits prod.splits)
qed


lemma find_by_id:
  assumes "k \<in> set (map trip_id ts)"
  obtains y where "find (\<lambda>x. trip_id x = k) ts = Some y" "y \<in> set ts" "trip_id y = k"
proof -
  from assms have "\<exists>x \<in> set ts. trip_id x = k" by auto
  then obtain y where y: "find (\<lambda>x. trip_id x = k) ts = Some y"
    by (cases "find (\<lambda>x. trip_id x = k) ts") (auto simp: find_None_iff)
  then have "y \<in> set ts \<and> trip_id y = k"
    by (auto simp: find_Some_iff)
  with y that show ?thesis by blast
qed

text \<open>
  The trip that create returns: a stored row that agrees with the row written by
  Trip.objects.create on every column but the aggregated totals.
\<close>

lemma returned_trip:
  assumes c: "Trip_objects_create s2 vd2 = (s3, Inr t0)"
    and e: "create_events s3 (trip_id t0) ds = (s', r)"
    and t: "t = get_default t0 (find (\<lambda>x. trip_id x = trip_id t0) (trips s'))"
  shows "t \<in> set (trips s')" "same_but_totals t0 t"
proof -
  note tc = Trip_objects_create_Inr [OF c]
  note fr = create_events_frame [OF e]
  have "trip_id t0 \<in> set (map trip_id (trips s'))" using fr tc(1) by simp
  then obtain y where y: "find (\<lambda>x. trip_id x = trip_id t0) (trips s') = Some y"
    "y \<in> set (trips s')" "trip_id y = trip_id t0" by (rule find_by_id)
  have ty: "t = y" using t y(1) by (simp add: get_default_def)
  from fr y(2) obtain x where x: "x \<in> set (trips s3)" "same_but_totals x y" by blast
  have ix: "trip_id x = trip_id t0" using x(2) y(3) by (simp add: same_but_totals_def)
  have fresh: "trip_id t0 \<notin> set (map trip_id (trips s2))"
    using tc(7) new_pk_fresh [of "map trip_id (trips s2)"] by simp
  have "x \<notin> set (trips s2)"
  proof
    assume "x \<in> set (trips s2)"
    then have "trip_id x \<in> set (map trip_id (trips s2))" by simp
    with ix fresh show False by simp
  qed
  then have "x = t0" using x(1) tc(1) by simp
  show "t \<in> set (trips s')" using ty y(2) by simp
  show "same_but_totals t0 t" using ty x(2) \<open>x = t0\<close> by simp
qed

text \<open>
  C3: whenever one of the three legacy single-location fields is supplied, create raises
  AttributeError at the call timezone.now() and the store is left as it was: no TripEvent
  is created for the field.
\<close>

theorem legacy_location_raises:
  assumes "vd_current_location vd \<noteq> None \<or> vd_pickup_location vd \<noteq> None \<or>
    vd_dropoff_location vd \<noteq> None"
  shows "TripCreateSerializer_create s vd = (s, Inl AttributeError)"
proof -
  from assms have "legacy_locations vd = Inl AttributeError" by (rule legacy_locations_present)
  then show ?thesis by (simp add: TripCreateSerializer_create_def create_body_def)
qed

theorem legacy_location_raises_witness:
  "vd_current_location (request_explicit\<lparr> vd_current_location := Some address_data \<rparr>) = Some address_data \<and>
   TripCreateSerializer_create store_a (request_explicit\<lparr> vd_current_location := Some address_data \<rparr>)
     = (store_a, Inl AttributeError)"
proof -
  have h: "vd_current_location (request_explicit\<lparr> vd_current_location := Some address_data \<rparr>) = Some address_data"
    by simp
  then have "vd_current_location (request_explicit\<lparr> vd_current_location := Some address_data \<rparr>) \<noteq> None \<or>
     vd_pickup_location (request_explicit\<lparr> vd_current_location := Some address_data \<rparr>) \<noteq> None \<or>
     vd_dropoff_location (request_explicit\<lparr> vd_current_location := Some address_data \<rparr>) \<noteq> None"
    by simp
  from legacy_location_raises [OF this, of store_a] h show ?thesis by blast
qed

text \<open>
  C7: when create succeeds on a request that carries an explicit driver reference, the
  created trip references that driver and no Driver row is added, whatever driver_initial
  holds; likewise an explicit vehicle reference is the vehicle of the created trip and
  neither a Vehicle nor a Carrier row is added, whatever truck_number and carrier_name
  hold.
\<close>

theorem explicit_reference_wins:
  assumes "TripCreateSerializer_create s vd = (s', Inr t)"
  shows "(\<forall>d. vd_driver vd = Some d \<longrightarrow> driver t = d \<and> drivers s' = drivers s) \<and>
         (\<forall>v. vd_vehicle vd = Some v \<longrightarrow>
            vehicle t = v \<and> vehicles s' = vehicles s \<and> carriers s' = carriers s)"
proof -
  from assms obtain s1 vd1 s2 vd2 s3 t0 where
    rd: "resolve_driver s vd = (s1, Inr vd1)" and
    rv: "resolve_vehicle s1 vd1 = (s2, Inr vd2)" and
    tc: "Trip_objects_create s2 vd2 = (s3, Inr t0)" and
    ce: "create_events s3 (trip_id t0) (get_default [] (vd_initial_events vd)) = (s', Inr ())" and
    t: "t = get_default t0 (find (\<lambda>x. trip_id x = trip_id t0) (trips s'))"
    by (rule create_Inr)
  note c = Trip_objects_create_Inr [OF tc]
  note fe = create_events_frame [OF ce]
  note rt = returned_trip [OF tc ce t]
  have dt: "driver t = driver t0" and vt: "vehicle t = vehicle t0"
    using rt(2) by (simp_all add: same_but_totals_def)
  have d1: "vd1 = vd\<lparr> vd_driver := vd_driver vd1 \<rparr>" using rd by (rule resolve_driver_data)
  have d2: "vd2 = vd1\<lparr> vd_vehicle := vd_vehicle vd2 \<rparr>" using rv by (rule resolve_vehicle_data)
  have drv: "driver t = d \<and> drivers s' = drivers s" if "vd_driver vd = Some d" for d
  proof -
    from that rd have "s1 = s" "vd1 = vd" by (simp_all add: resolve_driver_explicit)
    moreover have "vd_driver vd2 = vd_driver vd1" using d2 by (metis trip_validated_data.select_convs(2) trip_validated_data.surjective trip_validated_data.update_convs(4))
    ultimately have "driver t0 = d" using c(8) that by simp
    moreover have "drivers s' = drivers s"
      using fe c(3) resolve_vehicle_frame(2) [OF rv] \<open>s1 = s\<close> by simp
    ultimately show ?thesis using dt by simp
  qed
  have veh: "vehicle t = v \<and> vehicles s' = vehicles s \<and> carriers s' = carriers s"
    if "vd_vehicle vd = Some v" for v
  proof -
    have "vd_vehicle vd1 = vd_vehicle vd" using d1 by (metis trip_validated_data.select_convs(4) trip_validated_data.surjective trip_validated_data.update_convs(2))
    with that rv have "s2 = s1" "vd2 = vd1" by (simp_all add: resolve_vehicle_explicit)
    then have "vehicle t0 = v" using c(9) that \<open>vd_vehicle vd1 = vd_vehicle vd\<close> by simp
    moreover have "vehicles s' = vehicles s \<and> carriers s' = carriers s"
      using fe c(4,5) resolve_driver_frame(2,3) [OF rd] \<open>s2 = s1\<close> by simp
    ultimately show ?thesis using vt by simp
  qed
  show ?thesis using drv veh by blast
qed

lemma create_explicit_eval:
  "TripCreateSerializer_create store_a request_explicit =
     (store_a\<lparr> trips := trips store_a @ [trip_created] \<rparr>, Inr trip_created)"
  by (simp add: TripCreateSerializer_create_def create_body_def legacy_locations_def
      resolve_driver_def resolve_vehicle_def Trip_objects_create_def get_default_def
      optional_def new_pk_def store_a_def request_explicit_def trip_created_def
      truthy_def Let_def numeral_2_eq_2)

theorem explicit_reference_wins_witness:
  "TripCreateSerializer_create store_a request_explicit =
     (store_a\<lparr> trips := trips store_a @ [trip_created] \<rparr>, Inr trip_created) \<and>
   vd_driver request_explicit = Some 1 \<and> vd_driver_initial request_explicit = Some ''ZZ'' \<and>
   vd_vehicle request_explicit = Some 1 \<and> vd_truck_number request_explicit = Some ''TRK-9'' \<and>
   driver trip_created = 1 \<and> vehicle trip_created = 1 \<and>
   drivers (store_a\<lparr> trips := trips store_a @ [trip_created] \<rparr>) = drivers store_a \<and>
   vehicles (store_a\<lparr> trips := trips store_a @ [trip_created] \<rparr>) = vehicles store_a \<and>
   carriers (store_a\<lparr> trips := trips store_a @ [trip_created] \<rparr>) = carriers store_a"
proof -
  have h: "TripCreateSerializer_create store_a request_explicit =
     (store_a\<lparr> trips := trips store_a @ [trip_created] \<rparr>, Inr trip_created)"
    by (rule create_explicit_eval)
  have r: "vd_driver request_explicit = Some 1" "vd_driver_initial request_explicit = Some ''ZZ''"
    "vd_vehicle request_explicit = Some 1" "vd_truck_number request_explicit = Some ''TRK-9''"
    by (simp_all add: request_explicit_def)
  from explicit_reference_wins [OF h] r(1,3)
  have "driver trip_created = 1 \<and> vehicle trip_created = 1 \<and>
   drivers (store_a\<lparr> trips := trips store_a @ [trip_created] \<rparr>) = drivers store_a \<and>
   vehicles (store_a\<lparr> trips := trips store_a @ [trip_created] \<rparr>) = vehicles store_a \<and>
   carriers (store_a\<lparr> trips := trips store_a @ [trip_created] \<rparr>) = carriers store_a"
    by blast
  with h r show ?thesis by blast
qed

subsection \<open>Which totals a request can set\<close>

lemma resolve_driver_keeps:
  assumes "resolve_driver s vd = (s', Inr vd')"
  shows "vd_total_mileage_today vd' = vd_total_mileage_today vd"
    "vd_vehicle vd' = vd_vehicle vd" "vd_truck_number vd' = vd_truck_number vd"
    "vd_carrier_name vd' = vd_carrier_name vd" "vd_date vd' = vd_date vd"
    "vd_co_driver vd' = vd_co_driver vd"
  using assms
  by (auto simp: resolve_driver_def split: if_splits prod.splits sum.splits)

lemma resolve_vehicle_keeps:
  assumes "resolve_vehicle s vd = (s', Inr vd')"
  shows "vd_total_mileage_today vd' = vd_total_mileage_today vd"
    "vd_driver vd' = vd_driver vd" "vd_date vd' = vd_date vd"
    "vd_co_driver vd' = vd_co_driver vd"
  using assms
  by (auto simp: resolve_vehicle_def split: if_splits prod.splits sum.splits)

lemma fresh_trip_has_no_events:
  assumes "events_have_trips s"
  shows "filter (\<lambda>e. ev_trip e = new_pk (map trip_id (trips s))) (events s) = []"
proof -
  have "ev_trip e \<noteq> new_pk (map trip_id (trips s))" if "e \<in> set (events s)" for e
  proof -
    from assms that have "ev_trip e \<in> set (map trip_id (trips s))"
      by (simp add: events_have_trips_def list_all_iff)
    then show ?thesis using new_pk_fresh [of "map trip_id (trips s)"] by metis
  qed
  then show ?thesis by (simp add: filter_empty_conv)
qed

lemma create_totals:
  assumes wf: "events_have_trips s"
    and cr: "TripCreateSerializer_create s vd = (s', Inr t)"
  shows "t \<in> set (trips s')" "totals_match s' t"
    "total_mileage_today t = get_default 0 (vd_total_mileage_today vd)"
proof -
  from cr obtain s1 vd1 s2 vd2 s3 t0 where
    rd: "resolve_driver s vd = (s1, Inr vd1)" and
    rv: "resolve_vehicle s1 vd1 = (s2, Inr vd2)" and
    tc: "Trip_objects_create s2 vd2 = (s3, Inr t0)" and
    ce: "create_events s3 (trip_id t0) (get_default [] (vd_initial_events vd)) = (s', Inr ())" and
    t: "t = get_default t0 (find (\<lambda>x. trip_id x = trip_id t0) (trips s'))"
    by (rule create_Inr)
  note c = Trip_objects_create_Inr [OF tc]
  note rt = returned_trip [OF tc ce t]
  have tr2: "trips s2 = trips s"
    using resolve_driver_frame(4) [OF rd] resolve_vehicle_frame(3) [OF rv] by simp
  have ev3: "events s3 = events s"
    using resolve_driver_frame(5) [OF rd] resolve_vehicle_frame(4) [OF rv] c(6) by simp
  have k: "trip_id t0 = new_pk (map trip_id (trips s))" using c(7) tr2 by simp
  have none: "trip_events s3 (trip_id t0) = []"
    unfolding trip_events_def ev3 k using wf by (rule fresh_trip_has_no_events)
  have t0: "totals_match s3 t0"
    using c(11-15) none by (simp add: totals_match_def sum_where_def)
  have only: "x = t0" if "x \<in> set (trips s3)" "trip_id x = trip_id t0" for x
  proof -
    have "x \<notin> set (trips s)"
    proof
      assume "x \<in> set (trips s)"
      then have "trip_id x \<in> set (map trip_id (trips s))" by simp
      with that(2) k new_pk_fresh [of "map trip_id (trips s)"] show False by simp
    qed
    with that(1) c(1) tr2 show ?thesis by simp
  qed
  have inv3: "\<forall>x \<in> set (trips s3). trip_id x = trip_id t0 \<longrightarrow> totals_match s3 x"
    using only t0 by blast
  from create_events_totals [OF ce inv3]
  have inv: "\<forall>x \<in> set (trips s'). trip_id x = trip_id t0 \<longrightarrow> totals_match s' x" .
  show "t \<in> set (trips s')" by (rule rt(1))
  have "trip_id t = trip_id t0" using rt(2) by (simp add: same_but_totals_def)
  with inv rt(1) show "totals_match s' t" by blast
  have "total_mileage_today t = total_mileage_today t0"
    using rt(2) by (simp add: same_but_totals_def)
  then show "total_mileage_today t = get_default 0 (vd_total_mileage_today vd)"
    using c(10) resolve_driver_keeps(1) [OF rd] resolve_vehicle_keeps(1) [OF rv] by simp
qed

lemma update_totals:
  assumes "TripSerializer_update s t u = (s', Inr t')"
  shows "total_driving_hours t' = total_driving_hours t"
    "total_on_duty_hours t' = total_on_duty_hours t"
    "total_off_duty_hours t' = total_off_duty_hours t"
    "total_sleeper_hours t' = total_sleeper_hours t"
    "total_miles_driving t' = total_miles_driving t"
    "total_mileage_today t' = get_default (total_mileage_today t) (ud_total_mileage_today u)"
    "t' \<in> set (trips s')"
  using assms
  by (auto simp: TripSerializer_update_def set_attributes_def Let_def split: if_splits)

lemma save_keeps_mileage_today:
  assumes "TripEvent_save s e = (s', r)"
  shows "map total_mileage_today (trips s') = map total_mileage_today (trips s)"
proof -
  have c: "map total_mileage_today (trips (calculate_totals s1 k)) = map total_mileage_today (trips s1)"
    for s1 k
    by (simp add: calculate_totals_def set_totals_def)
  obtain s1 r1 where m: "Model_save_event s e = (s1, r1)" by (cases "Model_save_event s e")
  note fr = Model_save_event_frame(1) [OF m]
  from assms m have "s' = s1 \<or> (\<exists>k. s' = calculate_totals s1 k)"
    by (auto simp: TripEvent_save_def split: sum.splits)
  then show ?thesis using c fr by auto
qed

lemma update_eval:
  "TripSerializer_update store_a trip_stored update_totals_request =
     (store_a\<lparr> trips := [trip_stored\<lparr> total_mileage_today := 7, is_completed := True \<rparr>] \<rparr>,
      Inr (trip_stored\<lparr> total_mileage_today := 7, is_completed := True \<rparr>))"
  by (simp add: TripSerializer_update_def set_attributes_def get_default_def optional_def
      store_a_def trip_stored_def update_totals_request_def Let_def)

subsection \<open>Events with invalid data, and locations that are already stored\<close>

text \<open>
  The loop of create passes over an event whose data is not valid. The data that
  is_valid() of a request lets through holds no such event, so from the endpoint the
  test of line 336 always succeeds.
\<close>

lemma create_events_skips_invalid:
  "create_events s k ds = create_events s k (filter TripEventCreateSerializer_is_valid ds)"
  by (induction ds arbitrary: s) (auto split: prod.splits sum.splits)

lemma create_events_all_invalid:
  "list_all (\<lambda>d. \<not> TripEventCreateSerializer_is_valid d) ds \<Longrightarrow> create_events s k ds = (s, Inr ())"
  by (induction ds) auto

lemma stored_address_not_valid:
  assumes "ld_address ld = Some a" "a \<in> set (map address (locations s))"
  shows "\<not> LocationSerializer_is_valid s ld"
  using assms by (simp add: LocationSerializer_is_valid_def required_def)

text \<open>
  What get_or_create alone does with a stored address: the row is reused. The check of
  is_valid() runs first and rejects the address, so create never gets there.
\<close>

lemma LocationSerializer_create_reuses:
  assumes "ld_address ld = Some a" "filter (\<lambda>l. address l = a) (locations s) = [l]"
  shows "LocationSerializer_create s ld = (s, Inr l)"
  using assms by (simp add: LocationSerializer_create_def)

lemma insert_Location_distinct:
  assumes "insert_Location s l = (s', r)" "distinct (map address (locations s))"
  shows "distinct (map address (locations s'))"
  using assms by (auto simp: insert_Location_def Let_def split: if_splits)

lemma LocationSerializer_create_distinct:
  assumes "LocationSerializer_create s d = (s', r)" "distinct (map address (locations s))"
  shows "distinct (map address (locations s'))"
  using assms
  by (auto simp: LocationSerializer_create_def split: option.splits list.splits
      dest: insert_Location_distinct)

lemma event_creation_keeps_addresses_distinct:
  assumes "TripEventCreateSerializer_create s trip d = (s', r)"
    and "distinct (map address (locations s))"
  shows "distinct (map address (locations s'))"
  using assms(1)
proof (cases rule: TripEventCreateSerializer_create_cases)
  case unchanged
  with assms(2) show ?thesis by simp
next
  case (location ld r1)
  from LocationSerializer_create_distinct [OF location assms(2)] show ?thesis .
next
  case (saved ld s1 r1 e)
  from LocationSerializer_create_distinct [OF saved(1) assms(2)]
  have "distinct (map address (locations s1))" .
  then show ?thesis using TripEvent_save_frame(1) [OF saved(2)] by simp
qed

text \<open>
  C8, what the code does: creating a TripEvent whose location data carries the address of
  a stored Location fails with ValidationError and leaves the store unchanged, so no
  event is created that could refer to the existing row.
\<close>

theorem stored_address_is_rejected:
  assumes "ed_location_data d = Some ld" "ld_address ld = Some a"
    "a \<in> set (map address (locations s))"
  shows "TripEventCreateSerializer_create s trip d = (s, Inl ValidationError)"
  using assms stored_address_not_valid [OF assms(2,3)]
  by (simp add: TripEventCreateSerializer_create_def)

theorem stored_address_is_rejected_witness:
  "ed_location_data event_at_main = Some address_data \<and>
   ld_address address_data = Some ''1 Main St'' \<and>
   ''1 Main St'' \<in> set (map address (locations store_a)) \<and>
   TripEventCreateSerializer_is_valid event_at_main \<and>
   TripEventCreateSerializer_create store_a (Some 1) event_at_main = (store_a, Inl ValidationError)"
proof -
  have h1: "ed_location_data event_at_main = Some address_data" by (simp add: event_at_main_def)
  have h2: "ld_address address_data = Some ''1 Main St''" by (simp add: address_data_def)
  have h3: "''1 Main St'' \<in> set (map address (locations store_a))" by (simp add: store_a_def)
  have h4: "TripEventCreateSerializer_is_valid event_at_main"
    by (simp add: TripEventCreateSerializer_is_valid_def event_at_main_def required_def
        optional_def EVENT_TYPE_CHOICES_def)
  from stored_address_is_rejected [OF h1 h2 h3, of "Some 1"] h1 h2 h3 h4 show ?thesis by blast
qed

text \<open>
  The sibling path: an exception inside create, such as the ValidationError of an
  invalid location, undoes every write.
\<close>

lemma create_failure_rolls_back:
  "TripCreateSerializer_create s vd = (s', Inl err) \<Longrightarrow> s' = s"
  by (auto simp: TripCreateSerializer_create_def split: prod.splits sum.splits)

subsection \<open>The vehicle shorthand\<close>

text \<open>
  The lemmas of this subsection describe create itself, on validated data that lacks a
  vehicle. The endpoint never passes such data (see the requests below); they say what
  lines 313-329 do when create is called with it.
\<close>

lemma insert_Carrier_Inr:
  assumes "insert_Carrier s c = (s', Inr c')"
  shows "carriers s' = carriers s @ [c']" "name c' = name c" "dot_number c' = dot_number c"
    "name c \<notin> set (map name (carriers s))"
  using assms by (auto simp: insert_Carrier_def Let_def split: if_splits)

lemma Carrier_get_or_create_Inr:
  assumes "Carrier_get_or_create s cn = (s', Inr c)"
  shows "c \<in> set (carriers s')" "name c = cn"
    "if cn \<in> set (map name (carriers s)) then carriers s' = carriers s
     else carriers s' = carriers s @ [c] \<and> dot_number c = ''DOT_'' @ take 10 cn"
proof -
  show "c \<in> set (carriers s')" "name c = cn"
    "if cn \<in> set (map name (carriers s)) then carriers s' = carriers s
     else carriers s' = carriers s @ [c] \<and> dot_number c = ''DOT_'' @ take 10 cn"
  proof (atomize (full), cases "filter (\<lambda>c. name c = cn) (carriers s)")
    case Nil
    then have no: "cn \<notin> set (map name (carriers s))" by (auto simp: filter_empty_conv)
    from assms Nil have i: "insert_Carrier s
            \<lparr> car_id = 0, name = cn, dot_number = ''DOT_'' @ take 10 cn,
              mc_number = [], carrier_address = [], phone = [] \<rparr> = (s', Inr c)"
      by (simp add: Carrier_get_or_create_def)
    note r = insert_Carrier_Inr [OF i]
    show "c \<in> set (carriers s') \<and> name c = cn \<and>
      (if cn \<in> set (map name (carriers s)) then carriers s' = carriers s
       else carriers s' = carriers s @ [c] \<and> dot_number c = ''DOT_'' @ take 10 cn)"
      using r no by simp
  next
    case (Cons x xs)
    with assms have xs: "xs = []" and c: "c = x" and s': "s' = s"
      by (auto simp: Carrier_get_or_create_def split: list.splits)
    from Cons have "x \<in> set (filter (\<lambda>c. name c = cn) (carriers s))" by simp
    then have "x \<in> set (carriers s)" "name x = cn" by auto
    then show "c \<in> set (carriers s') \<and> name c = cn \<and>
      (if cn \<in> set (map name (carriers s)) then carriers s' = carriers s
       else carriers s' = carriers s @ [c] \<and> dot_number c = ''DOT_'' @ take 10 cn)"
      using c s' by auto
  qed
qed

lemma resolve_carrier_Inr:
  assumes "resolve_carrier s cn = (s', Inr c)"
  shows "c \<in> set (carriers s')"
    "truthy cn \<Longrightarrow> cn = Some (name c) \<and>
       (if name c \<in> set (map name (carriers s)) then carriers s' = carriers s
        else carriers s' = carriers s @ [c] \<and> dot_number c = ''DOT_'' @ take 10 (name c))"
    "\<not> truthy cn \<Longrightarrow> carriers s \<noteq> [] \<Longrightarrow>
       carriers s' = carriers s \<and> c \<in> set (carriers s) \<and> (\<forall>c' \<in> set (carriers s). car_id c \<le> car_id c')"
    "\<not> truthy cn \<Longrightarrow> carriers s = [] \<Longrightarrow>
       carriers s' = [c] \<and> name c = ''Default Carrier'' \<and> dot_number c = ''DOT_DEFAULT''"
proof -
  show t: "cn = Some (name c) \<and>
       (if name c \<in> set (map name (carriers s)) then carriers s' = carriers s
        else carriers s' = carriers s @ [c] \<and> dot_number c = ''DOT_'' @ take 10 (name c))"
    if "truthy cn"
  proof -
    from that obtain n where n: "cn = Some n" by (auto simp: truthy_def split: option.splits)
    with that assms have g: "Carrier_get_or_create s n = (s', Inr c)"
      by (simp add: resolve_carrier_def get_default_def)
    note r = Carrier_get_or_create_Inr [OF g]
    show ?thesis using r(2,3) n by simp
  qed
  show f: "carriers s' = carriers s \<and> c \<in> set (carriers s) \<and> (\<forall>c' \<in> set (carriers s). car_id c \<le> car_id c')"
    if "\<not> truthy cn" "carriers s \<noteq> []"
  proof -
    from that(2) have "first (sort_key car_id (carriers s)) \<noteq> None"
      by (simp add: first_None_iff sort_key_Nil_iff)
    then obtain x where x: "first (sort_key car_id (carriers s)) = Some x" by auto
    with that(1) assms have "s' = s" "c = x"
      by (simp_all add: resolve_carrier_def Carrier_objects_first_def)
    with first_sort_key [OF x] show ?thesis by simp
  qed
  show d: "carriers s' = [c] \<and> name c = ''Default Carrier'' \<and> dot_number c = ''DOT_DEFAULT''"
    if "\<not> truthy cn" "carriers s = []"
  proof -
    from that have "Carrier_objects_first s = None"
      by (simp add: Carrier_objects_first_def first_def)
    with that(1) assms have i: "insert_Carrier s
                  \<lparr> car_id = 0, name = ''Default Carrier'', dot_number = ''DOT_DEFAULT'',
                    mc_number = [], carrier_address = [], phone = [] \<rparr> = (s', Inr c)"
      by (simp add: resolve_carrier_def)
    note r = insert_Carrier_Inr [OF i]
    show ?thesis using r that(2) by simp
  qed
  show "c \<in> set (carriers s')"
  proof (cases "truthy cn")
    case True
    then obtain n where n: "cn = Some n" by (auto simp: truthy_def split: option.splits)
    with True assms have g: "Carrier_get_or_create s n = (s', Inr c)"
      by (simp add: resolve_carrier_def get_default_def)
    from Carrier_get_or_create_Inr(1) [OF g] show ?thesis .
  next
    case False
    show ?thesis
    proof (cases "carriers s = []")
      case True
      with d [OF False] show ?thesis by simp
    next
      case nonempty: False
      with f [OF False] show ?thesis by simp
    qed
  qed
qed

lemma insert_Vehicle_Inr:
  assumes "insert_Vehicle s v = (s', Inr v')"
  shows "vehicles s' = vehicles s @ [v']" "truck_number v' = truck_number v"
    "carrier v' = carrier v" "truck_number v \<notin> set (map truck_number (vehicles s))"
  using assms by (auto simp: insert_Vehicle_def Let_def split: if_splits)

lemma Vehicle_get_or_create_Inr:
  assumes "Vehicle_get_or_create s tn c = (s', Inr v)"
  shows "v \<in> set (vehicles s') \<and> truck_number v = tn \<and>
    (if tn \<in> set (map truck_number (vehicles s)) then vehicles s' = vehicles s
     else vehicles s' = vehicles s @ [v] \<and> carrier v = c)"
proof (cases "filter (\<lambda>v. truck_number v = tn) (vehicles s)")
  case Nil
  then have no: "tn \<notin> set (map truck_number (vehicles s))" by (auto simp: filter_empty_conv)
  from assms Nil have i: "insert_Vehicle s
            \<lparr> veh_id = 0, truck_number = tn, veh_make = [], model = [], year = None,
              vin = [], license_plate = [], carrier = c \<rparr> = (s', Inr v)"
    by (simp add: Vehicle_get_or_create_def)
  note r = insert_Vehicle_Inr [OF i]
  show ?thesis using r no by simp
next
  case (Cons x xs)
  with assms have xs: "xs = []" and c: "v = x" and s': "s' = s"
    by (auto simp: Vehicle_get_or_create_def split: list.splits)
  from Cons have "x \<in> set (filter (\<lambda>v. truck_number v = tn) (vehicles s))" by simp
  then have "x \<in> set (vehicles s)" "truck_number x = tn" by auto
  then show ?thesis using c s' by auto
qed

lemma resolve_vehicle_shorthand:
  assumes "resolve_vehicle s vd = (s', Inr vd')" "vd_truck_number vd = Some tn" "tn \<noteq> []"
    "vd_vehicle vd = None"
  obtains s1 c v where "resolve_carrier s (vd_carrier_name vd) = (s1, Inr c)"
    "Vehicle_get_or_create s1 tn (car_id c) = (s', Inr v)" "vd_vehicle vd' = Some (veh_id v)"
  using assms
  by (auto simp: resolve_vehicle_def truthy_def get_default_def split: prod.splits sum.splits)


lemma shorthand_general:
  assumes tn: "vd_truck_number vd = Some tn" "tn \<noteq> []" "vd_vehicle vd = None"
    and cr: "TripCreateSerializer_create s vd = (s', Inr t)"
  shows "\<exists>c \<in> set (carriers s').
           (truthy (vd_carrier_name vd) \<longrightarrow>
              vd_carrier_name vd = Some (name c) \<and>
              (if name c \<in> set (map name (carriers s)) then carriers s' = carriers s
               else carriers s' = carriers s @ [c] \<and> dot_number c = ''DOT_'' @ take 10 (name c))) \<and>
           (\<not> truthy (vd_carrier_name vd) \<and> carriers s \<noteq> [] \<longrightarrow>
              carriers s' = carriers s \<and> c \<in> set (carriers s) \<and>
              (\<forall>c' \<in> set (carriers s). car_id c \<le> car_id c')) \<and>
           (\<not> truthy (vd_carrier_name vd) \<and> carriers s = [] \<longrightarrow>
              carriers s' = [c] \<and> name c = ''Default Carrier'' \<and> dot_number c = ''DOT_DEFAULT'') \<and>
           (\<exists>v \<in> set (vehicles s').
              truck_number v = tn \<and> vehicle t = veh_id v \<and>
              (if tn \<in> set (map truck_number (vehicles s)) then vehicles s' = vehicles s
               else vehicles s' = vehicles s @ [v] \<and> carrier v = car_id c))"
proof -
  from cr obtain s1 vd1 s2 vd2 s3 t0 where
    rd: "resolve_driver s vd = (s1, Inr vd1)" and
    rv: "resolve_vehicle s1 vd1 = (s2, Inr vd2)" and
    tc: "Trip_objects_create s2 vd2 = (s3, Inr t0)" and
    ce: "create_events s3 (trip_id t0) (get_default [] (vd_initial_events vd)) = (s', Inr ())" and
    t: "t = get_default t0 (find (\<lambda>x. trip_id x = trip_id t0) (trips s'))"
    by (rule create_Inr)
  note k = resolve_driver_keeps [OF rd]
  note f1 = resolve_driver_frame [OF rd]
  have tn1: "vd_truck_number vd1 = Some tn" "vd_vehicle vd1 = None" using k tn by simp_all
  from rv tn1(1) tn(2) tn1(2) obtain sc c v where
    rc: "resolve_carrier s1 (vd_carrier_name vd1) = (sc, Inr c)" and
    vg: "Vehicle_get_or_create sc tn (car_id c) = (s2, Inr v)" and
    v2: "vd_vehicle vd2 = Some (veh_id v)"
    by (rule resolve_vehicle_shorthand)
  note c3 = Trip_objects_create_Inr [OF tc]
  note fe = create_events_frame [OF ce]
  note rt = returned_trip [OF tc ce t]
  note fc = resolve_carrier_frame [OF rc]
  note fv = Vehicle_get_or_create_frame [OF vg]
  have car: "carriers s' = carriers sc" using fe c3(4) fv(3) by simp
  have veh: "vehicles s' = vehicles s2" using fe c3(5) by simp
  have car1: "carriers s1 = carriers s" and veh1: "vehicles sc = vehicles s"
    using f1 fc by simp_all
  have cn: "vd_carrier_name vd1 = vd_carrier_name vd" using k by simp
  note rcs = resolve_carrier_Inr [OF rc, unfolded cn car1]
  note vgs = Vehicle_get_or_create_Inr [OF vg, unfolded veh1]
  have vt: "vehicle t = veh_id v"
    using rt(2) c3(9) v2 by (simp add: same_but_totals_def)
  have "c \<in> set (carriers s')" using rcs(1) car by simp
  moreover have "\<exists>v \<in> set (vehicles s').
              truck_number v = tn \<and> vehicle t = veh_id v \<and>
              (if tn \<in> set (map truck_number (vehicles s)) then vehicles s' = vehicles s
               else vehicles s' = vehicles s @ [v] \<and> carrier v = car_id c)"
    using vgs vt veh by (intro bexI [of _ v]) auto
  ultimately show ?thesis using rcs(2,3,4) car by (intro bexI [of _ c]) auto
qed

lemma shorthand_example:
  assumes st: "carriers s = []" "vehicles s = []"
      "''AB'' \<notin> set (map driver_initial (drivers s))"
      "''LIC_AB'' \<notin> set (map license_number (drivers s))"
    and rq: "vd_driver_initial vd = Some ''AB''" "vd_truck_number vd = Some ''TRK-1''"
      "vd_driver vd = None" "vd_vehicle vd = None" "vd_co_driver vd = None"
      "vd_carrier_name vd = None" "vd_initial_events vd = None"
      "vd_current_location vd = None" "vd_pickup_location vd = None"
      "vd_dropoff_location vd = None" "vd_date vd = Some dt"
  shows "\<exists>s' t d c v.
           TripCreateSerializer_create s vd = (s', Inr t) \<and>
           drivers s' = drivers s @ [d] \<and> driver_initial d = ''AB'' \<and>
           carriers s' = [c] \<and> name c = ''Default Carrier'' \<and>
           vehicles s' = [v] \<and> truck_number v = ''TRK-1'' \<and> carrier v = car_id c \<and>
           trips s' = trips s @ [t] \<and> driver t = drv_id d \<and> vehicle t = veh_id v \<and>
           events s' = events s \<and> locations s' = locations s"
proof -
  define d where "d = \<lparr> drv_id = new_pk (map drv_id (drivers s)), driver_initial = ''AB'',
     full_name = ''AB'', license_number = ''LIC_AB'', phone_number = [], email = [] \<rparr>"
  define c where "c = \<lparr> car_id = new_pk [], name = ''Default Carrier'',
     dot_number = ''DOT_DEFAULT'', mc_number = [], carrier_address = [], phone = [] \<rparr>"
  define v where "v = \<lparr> veh_id = new_pk [], truck_number = ''TRK-1'', veh_make = [],
     model = [], year = None, vin = [], license_plate = [], carrier = car_id c \<rparr>"
  define s1 where "s1 = s\<lparr> drivers := drivers s @ [d] \<rparr>"
  define s2 where "s2 = s1\<lparr> carriers := [c], vehicles := [v] \<rparr>"
  define vd2 where "vd2 = vd\<lparr> vd_driver := Some (drv_id d), vd_vehicle := Some (veh_id v) \<rparr>"
  have "driver_initial x \<noteq> ''AB''" if "x \<in> set (drivers s)" for x
  proof
    assume eq: "driver_initial x = ''AB''"
    from that have "driver_initial x \<in> set (map driver_initial (drivers s))" by simp
    with eq st(3) show False by simp
  qed
  then have nodrv: "filter (\<lambda>x. driver_initial x = ''AB'') (drivers s) = []"
    by (simp add: filter_empty_conv)
  have rd: "resolve_driver s vd = (s1, Inr (vd\<lparr> vd_driver := Some (drv_id d) \<rparr>))"
    using st(3,4) rq(1,3) nodrv
    by (simp add: resolve_driver_def truthy_def get_default_def Driver_get_or_create_def
        insert_Driver_def Let_def s1_def d_def)
  have rv: "resolve_vehicle s1 (vd\<lparr> vd_driver := Some (drv_id d) \<rparr>) = (s2, Inr vd2)"
    using st(1,2) rq(2,4,6)
    by (simp add: resolve_vehicle_def resolve_carrier_def truthy_def get_default_def
        Carrier_objects_first_def first_def insert_Carrier_def Vehicle_get_or_create_def
        insert_Vehicle_def Let_def s1_def s2_def vd2_def c_def v_def)
  obtain s3 t0 where tc: "Trip_objects_create s2 vd2 = (s3, Inr t0)"
    using rq(5,11)
    by (simp add: Trip_objects_create_def Let_def optional_def s2_def s1_def vd2_def
        d_def v_def)
  note c3 = Trip_objects_create_Inr [OF tc]
  have ce: "create_events s3 (trip_id t0) (get_default [] (vd_initial_events vd)) = (s3, Inr ())"
    using rq(7) by (simp add: get_default_def)
  define t where "t = get_default t0 (find (\<lambda>x. trip_id x = trip_id t0) (trips s3))"
  note rt = returned_trip [OF tc ce t_def]
  have lg: "legacy_locations vd = Inr []" using rq(8,9,10) by (rule legacy_locations_absent)
  have cr: "TripCreateSerializer_create s vd = (s3, Inr t)"
    using lg rd rv tc ce
    by (simp add: TripCreateSerializer_create_def create_body_def Let_def t_def)
  have tr2: "trips s2 = trips s" by (simp add: s2_def s1_def)
  have "trip_id t = trip_id t0" using rt(2) by (simp add: same_but_totals_def)
  have "t \<notin> set (trips s)"
  proof
    assume "t \<in> set (trips s)"
    then have "trip_id t \<in> set (map trip_id (trips s))" by simp
    with \<open>trip_id t = trip_id t0\<close> c3(7) tr2 new_pk_fresh [of "map trip_id (trips s)"]
    show False by simp
  qed
  with rt(1) c3(1) tr2 have tt: "t = t0" by simp
  have p1: "drivers s3 = drivers s @ [d]" "carriers s3 = [c]" "vehicles s3 = [v]"
    "events s3 = events s" "locations s3 = locations s"
    using c3(2-6) by (simp_all add: s2_def s1_def)
  have p2: "trips s3 = trips s @ [t]" using c3(1) tr2 tt by simp
  have p3: "driver t = drv_id d" "vehicle t = veh_id v"
    using c3(8,9) tt by (simp_all add: vd2_def)
  have p4: "driver_initial d = ''AB''" "name c = ''Default Carrier''"
    "truck_number v = ''TRK-1''" "carrier v = car_id c"
    by (simp_all add: d_def c_def v_def)
  show ?thesis using cr p1 p2 p3 p4 by blast
qed

subsection \<open>Requests on the trips endpoint\<close>

lemma TripViewSet_create_rolls_back:
  "TripViewSet_create s r = (s', Inl err) \<Longrightarrow> s' = s"
  by (auto simp: TripViewSet_create_def split: if_splits dest: create_failure_rolls_back)

lemma create_events_invalid_location:
  assumes "e \<in> set ds" "TripEventCreateSerializer_is_valid e" "ed_location_data e = Some ld"
    "\<forall>s'. \<not> LocationSerializer_is_valid s' ld"
  shows "\<exists>s' err. create_events s k ds = (s', Inl err)"
  using assms(1)
proof (induction ds arbitrary: s)
  case Nil
  then show ?case by simp
next
  case (Cons d ds)
  show ?case
  proof (cases "e = d")
    case True
    have "TripEventCreateSerializer_create s (Some k) d = (s, Inl ValidationError)"
      using True assms(3,4) by (simp add: TripEventCreateSerializer_create_def)
    then show ?thesis using True assms(2) by simp
  next
    case False
    with Cons.prems have mem: "e \<in> set ds" by simp
    show ?thesis
    proof (cases "TripEventCreateSerializer_is_valid d")
      case invalid: False
      then show ?thesis using Cons.IH [OF mem, of s] by simp
    next
      case True
      obtain s1 r1 where c: "TripEventCreateSerializer_create s (Some k) d = (s1, r1)"
        by (cases "TripEventCreateSerializer_create s (Some k) d")
      show ?thesis
      proof (cases r1)
        case (Inl err)
        with True c show ?thesis by simp
      next
        case (Inr x)
        with True c show ?thesis using Cons.IH [OF mem, of s1] by simp
      qed
    qed
  qed
qed

lemma create_fails_on_invalid_location:
  assumes "vd_initial_events vd = Some evs" "e \<in> set evs"
    "TripEventCreateSerializer_is_valid e" "ed_location_data e = Some ld"
    "\<forall>s'. \<not> LocationSerializer_is_valid s' ld"
  shows "\<exists>err. TripCreateSerializer_create s vd = (s, Inl err)"
proof -
  have "\<exists>s' err. create_body s vd = (s', Inl err)"
  proof (cases "legacy_locations vd")
    case (Inl err)
    then show ?thesis by (simp add: create_body_def)
  next
    case (Inr legacy)
    obtain s1 r1 where rd: "resolve_driver s vd = (s1, r1)" by (cases "resolve_driver s vd")
    show ?thesis
    proof (cases r1)
      case (Inl err)
      with Inr rd show ?thesis by (simp add: create_body_def)
    next
      case vd1: (Inr vd1)
      obtain s2 r2 where rv: "resolve_vehicle s1 vd1 = (s2, r2)"
        by (cases "resolve_vehicle s1 vd1")
      show ?thesis
      proof (cases r2)
        case (Inl err)
        with Inr rd vd1 rv show ?thesis by (simp add: create_body_def)
      next
        case vd2: (Inr vd2)
        obtain s3 r3 where tc: "Trip_objects_create s2 vd2 = (s3, r3)"
          by (cases "Trip_objects_create s2 vd2")
        show ?thesis
        proof (cases r3)
          case (Inl err)
          with Inr rd vd1 rv vd2 tc show ?thesis by (simp add: create_body_def)
        next
          case t: (Inr t)
          have "e \<in> set (evs @ legacy)" using assms(2) by simp
          from create_events_invalid_location [OF this assms(3,4,5), of s3 "trip_id t"]
          obtain s4 err where "create_events s3 (trip_id t) (evs @ legacy) = (s4, Inl err)"
            by blast
          with Inr rd vd1 rv vd2 tc t assms(1) show ?thesis
            by (simp add: create_body_def get_default_def)
        qed
      qed
    qed
  qed
  then show ?thesis by (auto simp: TripCreateSerializer_create_def)
qed

text \<open>
  C1: a request to create a trip whose initial_events hold an event that fails validation
  is answered with an error and the store is left exactly as it was: no Trip and no
  TripEvent is stored. An event whose own fields are invalid (a negative duration) makes
  is_valid() of the request fail with ValidationError before create runs; an event whose
  location data no store accepts (a latitude out of range) makes create raise, which the
  transaction undoes.
\<close>

theorem invalid_nested_event_fails_creation:
  assumes "rq_initial_events r = Some evs" "e \<in> set evs"
    and "\<not> TripEventCreateSerializer_is_valid e \<or>
         (\<exists>ld. ed_location_data e = Some ld \<and> (\<forall>s'. \<not> LocationSerializer_is_valid s' ld))"
  shows "(\<exists>err. TripViewSet_create s r = (s, Inl err)) \<and>
         (\<not> TripEventCreateSerializer_is_valid e \<longrightarrow>
            TripViewSet_create s r = (s, Inl ValidationError))"
proof -
  have a: "TripViewSet_create s r = (s, Inl ValidationError)"
    if "\<not> TripEventCreateSerializer_is_valid e"
  proof -
    from that assms(2) have "\<not> list_all TripEventCreateSerializer_is_valid evs"
      by (auto simp: list_all_iff)
    then have "\<not> TripCreateSerializer_is_valid s r"
      using assms(1) by (simp add: TripCreateSerializer_is_valid_def required_def)
    then show ?thesis by (simp add: TripViewSet_create_def)
  qed
  have b: "\<exists>err. TripViewSet_create s r = (s, Inl err)"
  proof (cases "TripCreateSerializer_is_valid s r")
    case False
    then show ?thesis by (simp add: TripViewSet_create_def)
  next
    case True
    then have all: "list_all TripEventCreateSerializer_is_valid evs"
      using assms(1) by (simp add: TripCreateSerializer_is_valid_def required_def)
    then have ve: "TripEventCreateSerializer_is_valid e"
      using assms(2) by (simp add: list_all_iff)
    with assms(3) obtain ld where ld: "ed_location_data e = Some ld"
      "\<forall>s'. \<not> LocationSerializer_is_valid s' ld" by blast
    have "vd_initial_events (TripCreateSerializer_validated_data r) = Some evs"
      using assms(1) by (simp add: TripCreateSerializer_validated_data_def)
    from create_fails_on_invalid_location [OF this assms(2) ve ld]
    show ?thesis using True by (simp add: TripViewSet_create_def)
  qed
  show ?thesis using a b by blast
qed

lemma event_negative_invalid: "\<not> TripEventCreateSerializer_is_valid event_negative"
  by (simp add: TripEventCreateSerializer_is_valid_def event_negative_def required_def
      optional_def)

theorem invalid_nested_event_fails_creation_witness:
  "rq_initial_events post_negative_duration = Some [event_negative] \<and>
   \<not> TripEventCreateSerializer_is_valid event_negative \<and>
   TripViewSet_create store_a post_negative_duration = (store_a, Inl ValidationError) \<and>
   rq_initial_events post_off_map = Some [event_off_map] \<and>
   TripEventCreateSerializer_is_valid event_off_map \<and>
   TripCreateSerializer_is_valid store_a post_off_map \<and>
   (\<exists>err. TripViewSet_create store_a post_off_map = (store_a, Inl err))"
proof -
  have h1: "rq_initial_events post_negative_duration = Some [event_negative]"
    by (simp add: post_negative_duration_def blank_request_def)
  have h2: "event_negative \<in> set [event_negative]" by simp
  note h3 = event_negative_invalid
  then have h3': "\<not> TripEventCreateSerializer_is_valid event_negative \<or>
         (\<exists>ld. ed_location_data event_negative = Some ld \<and>
            (\<forall>s'. \<not> LocationSerializer_is_valid s' ld))" by simp
  from invalid_nested_event_fails_creation [OF h1 h2 h3', of store_a] h3
  have c1: "TripViewSet_create store_a post_negative_duration = (store_a, Inl ValidationError)"
    by blast
  have g1: "rq_initial_events post_off_map = Some [event_off_map]"
    by (simp add: post_off_map_def blank_request_def)
  have g2: "event_off_map \<in> set [event_off_map]" by simp
  have g3: "TripEventCreateSerializer_is_valid event_off_map"
    by (simp add: TripEventCreateSerializer_is_valid_def event_off_map_def required_def
        optional_def EVENT_TYPE_CHOICES_def)
  have g4: "\<exists>ld. ed_location_data event_off_map = Some ld \<and>
            (\<forall>s'. \<not> LocationSerializer_is_valid s' ld)"
    by (simp add: event_off_map_def LocationSerializer_is_valid_def required_def)
  then have g4': "\<not> TripEventCreateSerializer_is_valid event_off_map \<or>
         (\<exists>ld. ed_location_data event_off_map = Some ld \<and>
            (\<forall>s'. \<not> LocationSerializer_is_valid s' ld))" by simp
  have g5: "TripCreateSerializer_is_valid store_a post_off_map"
    using g3 by (simp add: TripCreateSerializer_is_valid_def post_off_map_def blank_request_def
        required_def optional_def store_a_def)
  from invalid_nested_event_fails_creation [OF g1 g2 g4', of store_a]
  have c2: "\<exists>err. TripViewSet_create store_a post_off_map = (store_a, Inl err)" by blast
  show ?thesis using h1 h3 c1 g1 g3 g5 c2 by blast
qed

lemma request_without_driver_is_rejected:
  "rq_driver r = None \<Longrightarrow> TripViewSet_create s r = (s, Inl ValidationError)"
  by (simp add: TripViewSet_create_def TripCreateSerializer_is_valid_def required_def)

text \<open>
  What a valid request hands to create: driver and vehicle are always there, so the two
  shorthand branches of create (lines 303-329) are never entered from the endpoint.
\<close>

lemma valid_request_has_references:
  assumes "TripCreateSerializer_is_valid s r"
  shows "vd_driver (TripCreateSerializer_validated_data r) \<noteq> None"
    "vd_vehicle (TripCreateSerializer_validated_data r) \<noteq> None"
  using assms
  by (auto simp: TripCreateSerializer_is_valid_def TripCreateSerializer_validated_data_def
      required_def split: option.splits)

lemma valid_request_skips_shorthand:
  assumes "TripCreateSerializer_is_valid s r"
  shows "resolve_driver s' (TripCreateSerializer_validated_data r)
           = (s', Inr (TripCreateSerializer_validated_data r))"
    "resolve_vehicle s' (TripCreateSerializer_validated_data r)
           = (s', Inr (TripCreateSerializer_validated_data r))"
  using valid_request_has_references [OF assms]
  by (auto simp: resolve_driver_def resolve_vehicle_def)

text \<open>
  C6, what the code does: a request to create a trip that gives no explicit vehicle
  reference, with or without truck_number, fails is_valid() because vehicle is a required
  field. It is answered with ValidationError, create is not called, no Carrier is
  resolved and no row is written.
\<close>

theorem request_without_vehicle_is_rejected:
  assumes "rq_vehicle r = None"
  shows "TripViewSet_create s r = (s, Inl ValidationError)"
  using assms
  by (simp add: TripViewSet_create_def TripCreateSerializer_is_valid_def required_def)

theorem request_without_vehicle_is_rejected_witness:
  "rq_vehicle post_shorthand = None \<and>
   rq_driver_initial post_shorthand = Some ''AB'' \<and>
   rq_truck_number post_shorthand = Some ''TRK-1'' \<and>
   carriers empty_store = [] \<and>
   TripViewSet_create empty_store post_shorthand = (empty_store, Inl ValidationError)"
proof -
  have h: "rq_vehicle post_shorthand = None"
    by (simp add: post_shorthand_def blank_request_def)
  have r: "rq_driver_initial post_shorthand = Some ''AB''"
    "rq_truck_number post_shorthand = Some ''TRK-1''"
    by (simp_all add: post_shorthand_def blank_request_def)
  have e: "carriers empty_store = []" by (simp add: empty_store_def)
  from request_without_vehicle_is_rejected [OF h, of empty_store] h r e show ?thesis by blast
qed

subsection \<open>The totals in a request\<close>

lemma create_ignores_aggregated_totals:
  "TripViewSet_create s
     (r\<lparr> rq_total_miles_driving := a, rq_total_driving_hours := b,
         rq_total_on_duty_hours := c, rq_total_off_duty_hours := d,
         rq_total_sleeper_hours := e \<rparr>)
   = TripViewSet_create s r"
  by (simp add: TripViewSet_create_def TripCreateSerializer_is_valid_def
      TripCreateSerializer_validated_data_def)

lemma update_ignores_aggregated_totals:
  "TripViewSet_update s pk partial
     (r\<lparr> rq_total_miles_driving := a, rq_total_driving_hours := b,
         rq_total_on_duty_hours := c, rq_total_off_duty_hours := d,
         rq_total_sleeper_hours := e \<rparr>)
   = TripViewSet_update s pk partial r"
proof -
  let ?r = "r\<lparr> rq_total_miles_driving := a, rq_total_driving_hours := b,
         rq_total_on_duty_hours := c, rq_total_off_duty_hours := d,
         rq_total_sleeper_hours := e \<rparr>"
  have v: "TripSerializer_is_valid s partial ?r = TripSerializer_is_valid s partial r"
    by (simp add: TripSerializer_is_valid_def)
  have d: "TripSerializer_validated_data ?r = TripSerializer_validated_data r"
    by (simp add: TripSerializer_validated_data_def)
  show ?thesis by (simp only: TripViewSet_update_def v d)
qed

lemma created_trip_totals:
  assumes "events_have_trips s" "TripViewSet_create s r = (s', Inr t)"
  shows "t \<in> set (trips s')" "totals_match s' t"
    "total_mileage_today t = get_default 0 (rq_total_mileage_today r)"
proof -
  from assms(2) have c: "TripCreateSerializer_create s (TripCreateSerializer_validated_data r) = (s', Inr t)"
    by (auto simp: TripViewSet_create_def split: if_splits)
  note ct = create_totals [OF assms(1) c]
  show "t \<in> set (trips s')" "totals_match s' t" by (rule ct)+
  show "total_mileage_today t = get_default 0 (rq_total_mileage_today r)"
    using ct(3) by (simp add: TripCreateSerializer_validated_data_def)
qed

lemma updated_trip_totals:
  assumes "TripViewSet_update s pk partial r = (s', Inr t')"
  shows "\<exists>t \<in> set (trips s). trip_id t = pk \<and>
           total_driving_hours t' = total_driving_hours t \<and>
           total_on_duty_hours t' = total_on_duty_hours t \<and>
           total_off_duty_hours t' = total_off_duty_hours t \<and>
           total_sleeper_hours t' = total_sleeper_hours t \<and>
           total_miles_driving t' = total_miles_driving t \<and>
           total_mileage_today t' = get_default (total_mileage_today t) (rq_total_mileage_today r)"
proof -
  from assms obtain t where f: "find (\<lambda>t. trip_id t = pk) (trips s) = Some t"
    and u: "TripSerializer_update s t (TripSerializer_validated_data r) = (s', Inr t')"
    by (auto simp: TripViewSet_update_def split: option.splits if_splits)
  from f have "t \<in> set (trips s)" "trip_id t = pk" by (auto simp: find_Some_iff)
  moreover note update_totals [OF u]
  ultimately show ?thesis by (auto simp: TripSerializer_validated_data_def)
qed

lemma post_mileage_valid: "TripCreateSerializer_is_valid store_a post_mileage"
  by (simp add: TripCreateSerializer_is_valid_def post_mileage_def blank_request_def
      required_def optional_def store_a_def)

lemma post_mileage_eval:
  "TripViewSet_create store_a post_mileage =
     (store_a\<lparr> trips := trips store_a @ [trip_created] \<rparr>, Inr trip_created)"
  using post_mileage_valid
  by (simp add: TripViewSet_create_def)
     (simp add: TripCreateSerializer_validated_data_def post_mileage_def blank_request_def
      TripCreateSerializer_create_def create_body_def legacy_locations_def
      resolve_driver_def resolve_vehicle_def Trip_objects_create_def get_default_def
      optional_def new_pk_def store_a_def trip_created_def truthy_def Let_def numeral_2_eq_2)

lemma patch_totals_eval:
  "TripViewSet_update store_a 1 True patch_totals =
     (store_a\<lparr> trips := [trip_stored\<lparr> total_mileage_today := 7, is_completed := True \<rparr>] \<rparr>,
      Inr (trip_stored\<lparr> total_mileage_today := 7, is_completed := True \<rparr>))"
  by (simp add: TripViewSet_update_def TripSerializer_is_valid_def field_ok_def optional_def
      TripSerializer_validated_data_def TripSerializer_update_def set_attributes_def
      get_default_def store_a_def trip_stored_def patch_totals_def blank_request_def Let_def)

text \<open>
  C4, what the code does: total_mileage_today is taken from the request. A valid POST that
  carries total_mileage_today 42 (and total_driving_hours 99) stores a trip whose
  total_mileage_today is 42 although the trip has no event; the same request with 7
  stores 7; a PATCH with total_mileage_today 7 overwrites the stored value. The
  total_driving_hours of the requests is ignored in both.
\<close>

theorem total_mileage_today_set_by_request:
  "TripViewSet_create store_a post_mileage =
     (store_a\<lparr> trips := trips store_a @ [trip_created] \<rparr>, Inr trip_created) \<and>
   total_mileage_today trip_created = 42 \<and> total_driving_hours trip_created = 0 \<and>
   trip_events (store_a\<lparr> trips := trips store_a @ [trip_created] \<rparr>) (trip_id trip_created) = [] \<and>
   map total_mileage_today
     (trips (fst (TripViewSet_create store_a (post_mileage\<lparr> rq_total_mileage_today := Some 7 \<rparr>))))
     = [0, 7] \<and>
   map total_mileage_today (trips (fst (TripViewSet_update store_a 1 True patch_totals))) = [7] \<and>
   map total_driving_hours (trips (fst (TripViewSet_update store_a 1 True patch_totals))) = [2]"
proof -
  have a: "total_mileage_today trip_created = 42 \<and> total_driving_hours trip_created = 0"
    by (simp add: trip_created_def)
  have b: "trip_events (store_a\<lparr> trips := trips store_a @ [trip_created] \<rparr>) (trip_id trip_created) = []"
    by (simp add: trip_events_def store_a_def trip_created_def)
  have v: "TripCreateSerializer_is_valid store_a (post_mileage\<lparr> rq_total_mileage_today := Some 7 \<rparr>)"
    by (simp add: TripCreateSerializer_is_valid_def post_mileage_def blank_request_def
      required_def optional_def store_a_def)
  have c: "map total_mileage_today
     (trips (fst (TripViewSet_create store_a (post_mileage\<lparr> rq_total_mileage_today := Some 7 \<rparr>))))
     = [0, 7]"
    using v
    by (simp add: TripViewSet_create_def)
       (simp add: TripCreateSerializer_validated_data_def post_mileage_def blank_request_def
        TripCreateSerializer_create_def create_body_def legacy_locations_def
        resolve_driver_def resolve_vehicle_def Trip_objects_create_def get_default_def
        optional_def new_pk_def store_a_def truthy_def Let_def)
  have d: "map total_mileage_today (trips (fst (TripViewSet_update store_a 1 True patch_totals))) = [7]"
    "map total_driving_hours (trips (fst (TripViewSet_update store_a 1 True patch_totals))) = [2]"
    by (simp_all only: patch_totals_eval fst_conv) (simp_all add: trip_stored_def)
  show ?thesis using post_mileage_eval a b c d by blast
qed

end
